theory Spec2Isabelle
  imports Main
begin

section \<open>The automation capability and its effects\<close>

text \<open>
  The two scripts of \<^verbatim>\<open>src/python-bridge\<close> drive a browser through Playwright.
  The browser is a black box here: every call the scripts make on it is an
  \<open>event\<close>, appended to a trace in program order, and what a call answers (a value
  or a raised exception) is given by a \<open>capability\<close>, a table of answers that may
  depend on everything done so far. A statement proved for every capability holds
  for the real browser as well as for any stub of it.
\<close>

type_synonym elem = nat

datatype event =
    Start
  | Stop
  | Launch bool
  | NewContext string
  | NewPage
  | Goto string
  | WaitForLoadState string
  | WaitForSelector string nat
  | QuerySelectorAll string
  | QuerySelector string
  | CardQuerySelector elem string
  | InnerText elem
  | Click elem
  | Fill elem string
  | Press elem string
  | SetInputFiles elem string
  | StorageState string
  | Close
  | Sleep nat
  | Stderr string

type_synonym trace = "event list"

text \<open>
  Python exceptions below \<^verbatim>\<open>Exception\<close>: Playwright's \<^verbatim>\<open>TimeoutError\<close>, which
  \<^verbatim>\<open>get_notebooks\<close> catches by name, and every other one. The string is what
  \<^verbatim>\<open>str(e)\<close> gives.
\<close>

datatype exn = PlaywrightTimeout string | OtherException string

fun str :: "exn \<Rightarrow> string" where
  "str (PlaywrightTimeout m) = m"
| "str (OtherException m) = m"

record capability =
  does :: "trace \<Rightarrow> event \<Rightarrow> exn + unit"
  finds :: "trace \<Rightarrow> event \<Rightarrow> exn + elem option"
  finds_all :: "trace \<Rightarrow> event \<Rightarrow> exn + elem list"
  reads :: "trace \<Rightarrow> event \<Rightarrow> exn + string"
  path_exists :: "trace \<Rightarrow> string \<Rightarrow> bool"

text \<open>
  A computation takes the trace so far and returns a value or a raised exception,
  with the trace it leaves.
\<close>

type_synonym 'a act = "trace \<Rightarrow> (exn + 'a) \<times> trace"

definition ret :: "'a \<Rightarrow> 'a act" where
  "ret x tr = (Inr x, tr)"

definition seq :: "'a act \<Rightarrow> ('a \<Rightarrow> 'b act) \<Rightarrow> 'b act" where
  "seq m f tr = (case m tr of (Inl e, tr') \<Rightarrow> (Inl e, tr') | (Inr x, tr') \<Rightarrow> f x tr')"

definition lift :: "(trace \<Rightarrow> 'a \<times> trace) \<Rightarrow> 'a act" where
  "lift f tr = (case f tr of (x, tr') \<Rightarrow> (Inr x, tr'))"

text \<open>\<^verbatim>\<open>try: m except Exception as e: h(e)\<close>\<close>

definition try_except :: "'a act \<Rightarrow> (exn \<Rightarrow> 'a act) \<Rightarrow> 'a act" where
  "try_except m h tr = (case m tr of (Inl e, tr') \<Rightarrow> h e tr' | (Inr x, tr') \<Rightarrow> (Inr x, tr'))"

text \<open>
  \<^verbatim>\<open>try: m finally: fin\<close>: \<open>fin\<close> runs however \<open>m\<close> ends; an exception of
  \<open>fin\<close> replaces the outcome of \<open>m\<close>.
\<close>

definition try_finally :: "'a act \<Rightarrow> unit act \<Rightarrow> 'a act" where
  "try_finally m fin tr =
     (case m tr of (r, tr') \<Rightarrow>
        (case fin tr' of (Inl e, tr'') \<Rightarrow> (Inl e, tr'') | (Inr _, tr'') \<Rightarrow> (r, tr'')))"

text \<open>The calls on the browser, by what they answer.\<close>

definition perform :: "capability \<Rightarrow> event \<Rightarrow> unit act" where
  "perform cap ev tr = (does cap tr ev, tr @ [ev])"

definition query :: "capability \<Rightarrow> event \<Rightarrow> elem option act" where
  "query cap ev tr = (finds cap tr ev, tr @ [ev])"

definition query_all :: "capability \<Rightarrow> event \<Rightarrow> elem list act" where
  "query_all cap ev tr = (finds_all cap tr ev, tr @ [ev])"

definition read_text :: "capability \<Rightarrow> event \<Rightarrow> string act" where
  "read_text cap ev tr = (reads cap tr ev, tr @ [ev])"

text \<open>\<^verbatim>\<open>time.sleep\<close>, in milliseconds; it never raises.\<close>

definition sleep :: "nat \<Rightarrow> unit act" where
  "sleep ms tr = (Inr (), tr @ [Sleep ms])"

text \<open>
  \<^verbatim>\<open>with sync_playwright() as p: body\<close>: the driver is started, and stopped
  however the body ends.
\<close>

definition with_playwright :: "capability \<Rightarrow> 'a act \<Rightarrow> 'a act" where
  "with_playwright cap body =
     seq (perform cap Start) (\<lambda>_. try_finally body (perform cap Stop))"

text \<open>
  The pattern \<^verbatim>\<open>x = page.query_selector(s1); if not x: x = page.query_selector(s2)\<close>
  that the scripts repeat for each control with two selector strategies.
\<close>

definition locate :: "capability \<Rightarrow> string \<Rightarrow> string \<Rightarrow> elem option act" where
  "locate cap s1 s2 =
     seq (query cap (QuerySelector s1)) (\<lambda>x.
       case x of Some el \<Rightarrow> ret (Some el) | None \<Rightarrow> query cap (QuerySelector s2))"

section \<open>notebooklm\_upload.py\<close>

text \<open>
  \<^verbatim>\<open>STATE_PATH = Path(__file__).parent / "state.json"\<close>: the file
  \<^verbatim>\<open>state.json\<close> beside the script, written here relative to the script's
  directory. Nothing below depends on what the path is.
\<close>

definition STATE_PATH :: string where
  "STATE_PATH = ''state.json''"

definition NOTEBOOKLM_URL :: string where
  "NOTEBOOKLM_URL = ''https://notebooklm.google.com/''"

subsection \<open>Adding one source\<close>

text \<open>
  The dictionaries \<^verbatim>\<open>{"success": True, "url": url}\<close>,
  \<^verbatim>\<open>{"success": True, "file": file_path}\<close> and
  \<^verbatim>\<open>{"success": False, "error": msg}\<close>.
\<close>

datatype add_result = Added_url string | Added_file string | Not_added string

text \<open>
  \<^verbatim>\<open>try: steps except Exception as e: return {"success": False, "error": str(e)}\<close>:
  nothing below \<^verbatim>\<open>Exception\<close> leaves the function.
\<close>

definition absorb :: "add_result act \<Rightarrow> trace \<Rightarrow> add_result \<times> trace" where
  "absorb m tr = (case m tr of (Inl e, tr') \<Rightarrow> (Not_added (str e), tr') | (Inr r, tr') \<Rightarrow> (r, tr'))"

text \<open>
  The controls of the page and the selector strategies the scripts try for each,
  in the order they try them.
\<close>

definition add_source_button :: "capability \<Rightarrow> elem option act" where
  \<open>add_source_button cap =
     locate cap ''button:has-text("Add source")'' ''[data-test-id="add-source-button"]''\<close>

definition website_option :: "capability \<Rightarrow> elem option act" where
  \<open>website_option cap =
     locate cap ''button:has-text("Website")'' ''[data-test-id="source-type-website"]''\<close>

definition url_input :: "capability \<Rightarrow> elem option act" where
  \<open>url_input cap =
     locate cap ''input[type="url"], input[placeholder*="URL"]'' ''[data-test-id="website-url-input"]''\<close>

definition upload_option :: "capability \<Rightarrow> elem option act" where
  \<open>upload_option cap =
     locate cap ''button:has-text("Upload")'' ''[data-test-id="source-type-upload"]''\<close>

definition file_input :: "capability \<Rightarrow> elem option act" where
  \<open>file_input cap = query cap (QuerySelector ''input[type="file"]'')\<close>

definition create_button :: "capability \<Rightarrow> elem option act" where
  \<open>create_button cap =
     locate cap ''button:has-text("Create new")'' ''[data-test-id="create-notebook-button"]''\<close>

definition name_input :: "capability \<Rightarrow> elem option act" where
  \<open>name_input cap = query cap (QuerySelector ''input[placeholder*="name"]'')\<close>

text \<open>The body of the \<^verbatim>\<open>try\<close> of \<^verbatim>\<open>add_website_source\<close>, lines 82 to 118.\<close>

definition website_steps :: "capability \<Rightarrow> string \<Rightarrow> add_result act" where
  "website_steps cap url =
     seq (add_source_button cap) (\<lambda>add_btn.
     case add_btn of None \<Rightarrow> ret (Not_added ''Could not find Add Source button'')
     | Some add_btn \<Rightarrow>
     seq (perform cap (Click add_btn)) (\<lambda>_.
     seq (sleep 1000) (\<lambda>_.
     seq (website_option cap) (\<lambda>website_opt.
     case website_opt of None \<Rightarrow> ret (Not_added ''Could not find Website option'')
     | Some website_opt \<Rightarrow>
     seq (perform cap (Click website_opt)) (\<lambda>_.
     seq (sleep 500) (\<lambda>_.
     seq (url_input cap) (\<lambda>url_in.
     case url_in of None \<Rightarrow> ret (Not_added ''Could not find URL input'')
     | Some url_in \<Rightarrow>
     seq (perform cap (Fill url_in url)) (\<lambda>_.
     seq (perform cap (Press url_in ''Enter'')) (\<lambda>_.
     seq (sleep 3000) (\<lambda>_.
     ret (Added_url url)))))))))))"

definition add_website_source :: "capability \<Rightarrow> string \<Rightarrow> trace \<Rightarrow> add_result \<times> trace" where
  "add_website_source cap url = absorb (website_steps cap url)"

text \<open>
  What follows the existence check in \<^verbatim>\<open>add_file_source\<close>, lines 130 to 157. The
  Upload option is clicked when it is found (\<^verbatim>\<open>if file_option:\<close>) and passed over
  when it is not.
\<close>

definition file_ui_steps :: "capability \<Rightarrow> string \<Rightarrow> add_result act" where
  "file_ui_steps cap file_path =
     seq (add_source_button cap) (\<lambda>add_btn.
     case add_btn of None \<Rightarrow> ret (Not_added ''Could not find Add Source button'')
     | Some add_btn \<Rightarrow>
     seq (perform cap (Click add_btn)) (\<lambda>_.
     seq (sleep 1000) (\<lambda>_.
     seq (upload_option cap) (\<lambda>file_option.
     seq (case file_option of None \<Rightarrow> ret ()
          | Some file_option \<Rightarrow> seq (perform cap (Click file_option)) (\<lambda>_. sleep 500)) (\<lambda>_.
     seq (file_input cap) (\<lambda>file_in.
     case file_in of
       Some file_in \<Rightarrow>
         seq (perform cap (SetInputFiles file_in file_path)) (\<lambda>_.
         seq (sleep 5000) (\<lambda>_.
         ret (Added_file file_path)))
     | None \<Rightarrow> ret (Not_added ''Could not find file input'')))))))"

text \<open>The body of the \<^verbatim>\<open>try\<close> of \<^verbatim>\<open>add_file_source\<close>, lines 127 to 157.\<close>

definition file_steps :: "capability \<Rightarrow> string \<Rightarrow> add_result act" where
  "file_steps cap file_path tr =
     (if \<not> path_exists cap tr file_path
      then ret (Not_added (''File not found: '' @ file_path)) tr
      else file_ui_steps cap file_path tr)"

definition add_file_source :: "capability \<Rightarrow> string \<Rightarrow> trace \<Rightarrow> add_result \<times> trace" where
  "add_file_source cap file_path = absorb (file_steps cap file_path)"

subsection \<open>Listing the notebooks\<close>

text \<open>A notebook as \<^verbatim>\<open>get_notebooks\<close> lists it: \<^verbatim>\<open>{"title": title, "element": card}\<close>.\<close>

record nb =
  title :: string
  element :: elem

definition notebook_card :: string where
  \<open>notebook_card = ''[data-test-id="notebook-card"]''\<close>

definition notebook_title :: string where
  \<open>notebook_title = ''[data-test-id="notebook-title"]''\<close>

definition title_of :: "capability \<Rightarrow> elem \<Rightarrow> string act" where
  "title_of cap c =
     seq (query cap (CardQuerySelector c notebook_title)) (\<lambda>title_el.
       case title_el of Some title_el \<Rightarrow> read_text cap (InnerText title_el)
       | None \<Rightarrow> ret ''Untitled'')"

text \<open>
  The loop over the cards appends to the list \<^verbatim>\<open>notebooks\<close>; an exception
  leaves the loop with what was appended so far.
\<close>

fun card_loop :: "capability \<Rightarrow> elem list \<Rightarrow> nb list \<Rightarrow> trace \<Rightarrow> (exn option \<times> nb list) \<times> trace" where
  "card_loop cap [] notebooks tr = ((None, notebooks), tr)"
| "card_loop cap (c # cards) notebooks tr =
     (case title_of cap c tr of
        (Inl e, tr') \<Rightarrow> ((Some e, notebooks), tr')
      | (Inr t, tr') \<Rightarrow> card_loop cap cards (notebooks @ [\<lparr>title = t, element = c\<rparr>]) tr')"

text \<open>\<^verbatim>\<open>except PlaywrightTimeout: pass\<close>, followed by \<^verbatim>\<open>return notebooks\<close>.\<close>

fun except_timeout :: "exn \<Rightarrow> nb list \<Rightarrow> nb list act" where
  "except_timeout (PlaywrightTimeout m) notebooks tr = (Inr notebooks, tr)"
| "except_timeout (OtherException m) notebooks tr = (Inl (OtherException m), tr)"

definition get_notebooks :: "capability \<Rightarrow> nb list act" where
  "get_notebooks cap tr =
     (case perform cap (WaitForSelector notebook_card 10000) tr of
        (Inl e, tr1) \<Rightarrow> except_timeout e [] tr1
      | (Inr _, tr1) \<Rightarrow>
          (case query_all cap (QuerySelectorAll notebook_card) tr1 of
             (Inl e, tr2) \<Rightarrow> except_timeout e [] tr2
           | (Inr cards, tr2) \<Rightarrow>
               (case card_loop cap cards [] tr2 of
                  ((Some e, notebooks), tr3) \<Rightarrow> except_timeout e notebooks tr3
                | ((None, notebooks), tr3) \<Rightarrow> (Inr notebooks, tr3))))"

subsection \<open>Creating a notebook\<close>

text \<open>The body of the \<^verbatim>\<open>try\<close> of \<^verbatim>\<open>create_notebook\<close>, lines 56 to 72.\<close>

definition create_steps :: "capability \<Rightarrow> string \<Rightarrow> bool act" where
  "create_steps cap name =
     seq (create_button cap) (\<lambda>create_btn.
     case create_btn of None \<Rightarrow> ret False
     | Some create_btn \<Rightarrow>
     seq (perform cap (Click create_btn)) (\<lambda>_.
     seq (sleep 2000) (\<lambda>_.
     seq (name_input cap) (\<lambda>name_in.
     seq (case name_in of None \<Rightarrow> ret ()
          | Some name_in \<Rightarrow>
              seq (perform cap (Fill name_in name)) (\<lambda>_.
              seq (perform cap (Press name_in ''Enter'')) (\<lambda>_.
              sleep 1000))) (\<lambda>_.
     ret True)))))"

text \<open>
  \<^verbatim>\<open>except Exception as e: print(..., file=sys.stderr)\<close>, then \<^verbatim>\<open>return False\<close>.
\<close>

definition create_notebook :: "capability \<Rightarrow> string \<Rightarrow> trace \<Rightarrow> bool \<times> trace" where
  "create_notebook cap name tr =
     (case create_steps cap name tr of
        (Inl e, tr') \<Rightarrow> (False, tr' @ [Stderr (''Error creating notebook: '' @ str e)])
      | (Inr created, tr') \<Rightarrow> (created, tr'))"

subsection \<open>The batch\<close>

text \<open>
  A source request is a dictionary read with \<^verbatim>\<open>source.get('type', 'website')\<close> and
  \<^verbatim>\<open>source.get('value', '')\<close>: either key may be absent.
\<close>

record source =
  src_type :: "string option"
  src_value :: "string option"

text \<open>
  The dictionary \<^verbatim>\<open>results\<close>; the key \<^verbatim>\<open>error\<close> is absent until it is set.
\<close>

record results =
  success :: bool
  notebook :: string
  uploaded :: "string list"
  failed :: "(string \<times> string) list"
  error :: "string option"

text \<open>
  What a script prints: \<^verbatim>\<open>{"success": False, "error": msg}\<close> alone, or a
  dictionary with more keys.
\<close>

datatype 'a reply = Error_only string | Payload 'a

definition source_type :: "source \<Rightarrow> string" where
  "source_type source = (case src_type source of Some t \<Rightarrow> t | None \<Rightarrow> ''website'')"

definition source_value :: "source \<Rightarrow> string" where
  "source_value source = (case src_value source of Some v \<Rightarrow> v | None \<Rightarrow> [])"

text \<open>Lines 215 to 223: one request, dispatched on its type.\<close>

definition add_source :: "capability \<Rightarrow> source \<Rightarrow> trace \<Rightarrow> add_result \<times> trace" where
  "add_source cap source tr =
     (if source_type source = ''website'' then add_website_source cap (source_value source) tr
      else if source_type source = ''file'' then add_file_source cap (source_value source) tr
      else (Not_added (''Unknown source type: '' @ source_type source), tr))"

text \<open>
  Lines 225 to 231. A failure dictionary always has the key \<^verbatim>\<open>error\<close>, so the
  default of \<^verbatim>\<open>result.get('error', 'Unknown error')\<close> is never taken.
\<close>

fun record_result :: "string \<Rightarrow> add_result \<Rightarrow> results \<Rightarrow> results" where
  "record_result v (Not_added e) rs = rs\<lparr>failed := failed rs @ [(v, e)]\<rparr>"
| "record_result v (Added_url u) rs = rs\<lparr>uploaded := uploaded rs @ [v]\<rparr>"
| "record_result v (Added_file f) rs = rs\<lparr>uploaded := uploaded rs @ [v]\<rparr>"

text \<open>
  The loop \<^verbatim>\<open>for source in sources\<close>. Both \<^verbatim>\<open>add_website_source\<close> and
  \<^verbatim>\<open>add_file_source\<close> catch every exception, so no iteration raises.
\<close>

fun add_each_source :: "capability \<Rightarrow> source list \<Rightarrow> results \<Rightarrow> trace \<Rightarrow> results \<times> trace" where
  "add_each_source cap [] rs tr = (rs, tr)"
| "add_each_source cap (source # rest) rs tr =
     (case add_source cap source tr of
        (result, tr') \<Rightarrow>
          add_each_source cap rest (record_result (source_value source) result rs) (tr' @ [Sleep 1000]))"

text \<open>
  The per-request results of that loop, in order: what each iteration's
  \<^verbatim>\<open>result\<close> was, with the browser's answers as they were at that iteration.
\<close>

fun outcomes :: "capability \<Rightarrow> source list \<Rightarrow> trace \<Rightarrow> add_result list" where
  "outcomes cap [] tr = []"
| "outcomes cap (source # rest) tr =
     (case add_source cap source tr of
        (result, tr') \<Rightarrow> result # outcomes cap rest (tr' @ [Sleep 1000]))"

fun is_added :: "add_result \<Rightarrow> bool" where
  "is_added (Not_added e) = False"
| "is_added (Added_url u) = True"
| "is_added (Added_file f) = True"

fun failure_text :: "add_result \<Rightarrow> string" where
  "failure_text (Not_added e) = e"
| "failure_text (Added_url u) = []"
| "failure_text (Added_file f) = []"

text \<open>
  Lines 194 to 211, "find or create notebook": the first notebook whose lowered
  title equals the lowered name is clicked; with none, a notebook is created. The
  answer is whether the run goes on to the sources. \<open>lower\<close> is Python's
  \<^verbatim>\<open>str.lower\<close>, whose Unicode tables are the interpreter's: a parameter here.
\<close>

definition resolve_notebook :: "(string \<Rightarrow> string) \<Rightarrow> capability \<Rightarrow> string \<Rightarrow> bool act" where
  "resolve_notebook lower cap notebook_name =
     seq (get_notebooks cap) (\<lambda>notebooks.
       case find (\<lambda>n. lower (title n) = lower notebook_name) notebooks of
         Some target_notebook \<Rightarrow>
           seq (perform cap (Click (element target_notebook))) (\<lambda>_.
           seq (sleep 2000) (\<lambda>_.
           ret True))
       | None \<Rightarrow> lift (create_notebook cap notebook_name))"

text \<open>
  Lines 188 to 211, what the \<^verbatim>\<open>try\<close> of \<^verbatim>\<open>upload_sources\<close> does before the
  loop over the sources: the page is opened and the notebook found or created.
\<close>

definition open_notebook :: "(string \<Rightarrow> string) \<Rightarrow> capability \<Rightarrow> string \<Rightarrow> bool act" where
  "open_notebook lower cap notebook_name =
     seq (perform cap (Goto NOTEBOOKLM_URL)) (\<lambda>_.
     seq (perform cap (WaitForLoadState ''networkidle'')) (\<lambda>_.
     seq (sleep 2000) (\<lambda>_.
     resolve_notebook lower cap notebook_name)))"

text \<open>The body of the \<^verbatim>\<open>try\<close> of \<^verbatim>\<open>upload_sources\<close>, lines 188 to 234.\<close>

definition upload_body :: "(string \<Rightarrow> string) \<Rightarrow> capability \<Rightarrow> string \<Rightarrow> source list \<Rightarrow> results \<Rightarrow> results act" where
  "upload_body lower cap notebook_name sources rs =
     seq (perform cap (Goto NOTEBOOKLM_URL)) (\<lambda>_.
     seq (perform cap (WaitForLoadState ''networkidle'')) (\<lambda>_.
     seq (sleep 2000) (\<lambda>_.
     seq (resolve_notebook lower cap notebook_name) (\<lambda>resolved.
     if \<not> resolved then ret (rs\<lparr>success := False, error := Some ''Could not create notebook''\<rparr>)
     else lift (add_each_source cap sources rs)))))"

text \<open>The \<^verbatim>\<open>try\<close> with its \<^verbatim>\<open>except Exception as e\<close>, lines 187 to 238.\<close>

definition guarded_upload :: "(string \<Rightarrow> string) \<Rightarrow> capability \<Rightarrow> string \<Rightarrow> source list \<Rightarrow> results \<Rightarrow> results act" where
  "guarded_upload lower cap notebook_name sources rs =
     try_except (upload_body lower cap notebook_name sources rs)
       (\<lambda>e. ret (rs\<lparr>success := False, error := Some (str e)\<rparr>))"

definition initial_results :: "string \<Rightarrow> results" where
  "initial_results notebook_name =
     \<lparr>success = True, notebook = notebook_name, uploaded = [], failed = [], error = None\<rparr>"

definition upload_sources ::
  "(string \<Rightarrow> string) \<Rightarrow> capability \<Rightarrow> string \<Rightarrow> source list \<Rightarrow> bool \<Rightarrow> results reply act" where
  "upload_sources lower cap notebook_name sources headless tr =
     (if \<not> path_exists cap tr STATE_PATH
      then (Inr (Error_only ''Not authenticated. Run authentication first.''), tr)
      else
        with_playwright cap
          (seq (perform cap (Launch headless)) (\<lambda>_.
           seq (perform cap (NewContext STATE_PATH)) (\<lambda>_.
           seq (perform cap NewPage) (\<lambda>_.
           seq (try_finally
                  (guarded_upload lower cap notebook_name sources (initial_results notebook_name))
                  (seq (perform cap (StorageState STATE_PATH)) (\<lambda>_. perform cap Close))) (\<lambda>rs.
           ret (Payload rs)))))) tr)"

definition list_body :: "capability \<Rightarrow> (string list \<times> nat) reply act" where
  "list_body cap =
     seq (perform cap (Goto NOTEBOOKLM_URL)) (\<lambda>_.
     seq (perform cap (WaitForLoadState ''networkidle'')) (\<lambda>_.
     seq (sleep 3000) (\<lambda>_.
     seq (get_notebooks cap) (\<lambda>notebooks.
     ret (Payload (map title notebooks, length (map title notebooks)))))))"

definition list_notebooks :: "capability \<Rightarrow> bool \<Rightarrow> (string list \<times> nat) reply act" where
  "list_notebooks cap headless tr =
     (if \<not> path_exists cap tr STATE_PATH
      then (Inr (Error_only ''Not authenticated. Run authentication first.''), tr)
      else
        with_playwright cap
          (seq (perform cap (Launch headless)) (\<lambda>_.
           seq (perform cap (NewContext STATE_PATH)) (\<lambda>_.
           seq (perform cap NewPage) (\<lambda>_.
           try_finally
             (try_except (list_body cap) (\<lambda>e. ret (Error_only (str e))))
             (perform cap Close))))) tr)"

section \<open>notebooklm\_auth.py\<close>

text \<open>
  What \<^verbatim>\<open>json.load\<close> returns. A dictionary is the list of its items, looked up by
  key; \<open>JInt\<close> and \<open>JFloat\<close> are Python's two number types (no operation below tells
  them apart, so the float keeps its literal only).
\<close>

datatype json =
    JNull
  | JBool bool
  | JInt int
  | JFloat string
  | JStr string
  | JArr "json list"
  | JObj "(string \<times> json) list"

text \<open>
  The state file as \<^verbatim>\<open>check_auth_status\<close> meets it: not there; there, but
  \<^verbatim>\<open>open\<close> or \<^verbatim>\<open>json.load\<close> raises (with the text of the exception); or loaded.
\<close>

datatype state_file = Absent | Unreadable string | Loaded json

record auth_status =
  authenticated :: bool
  message :: string
  cookie_count :: "nat option"

text \<open>The exceptions the body of the \<^verbatim>\<open>try\<close> can raise once the file is loaded.\<close>

datatype py_error = AttributeError string | TypeError string

fun error_text :: "py_error \<Rightarrow> string" where
  "error_text (AttributeError m) = m"
| "error_text (TypeError m) = m"

fun type_name :: "json \<Rightarrow> string" where
  "type_name JNull = ''NoneType''"
| "type_name (JBool b) = ''bool''"
| "type_name (JInt i) = ''int''"
| "type_name (JFloat f) = ''float''"
| "type_name (JStr s) = ''str''"
| "type_name (JArr xs) = ''list''"
| "type_name (JObj kvs) = ''dict''"

text \<open>\<^verbatim>\<open>x.get(key, default)\<close>: only a dictionary has the method.\<close>

fun py_get :: "json \<Rightarrow> string \<Rightarrow> json \<Rightarrow> py_error + json" where
  "py_get (JObj kvs) key dflt = Inr (case map_of kvs key of Some v \<Rightarrow> v | None \<Rightarrow> dflt)"
| "py_get x key dflt =
     Inl (AttributeError ([CHR 0x27] @ type_name x @ [CHR 0x27] @ '' object has no attribute '' @ [CHR 0x27] @ ''get'' @ [CHR 0x27]))"

text \<open>\<^verbatim>\<open>for c in x\<close>: the items of a list, the keys of a dictionary, the characters of a string.\<close>

fun py_iter :: "json \<Rightarrow> py_error + json list" where
  "py_iter (JArr xs) = Inr xs"
| "py_iter (JObj kvs) = Inr (map (\<lambda>kv. JStr (fst kv)) kvs)"
| "py_iter (JStr s) = Inr (map (\<lambda>ch. JStr [ch]) s)"
| "py_iter x = Inl (TypeError ([CHR 0x27] @ type_name x @ [CHR 0x27] @ '' object is not iterable''))"

text \<open>Whether \<open>needle\<close> occurs in \<open>s\<close> as a contiguous run: \<^verbatim>\<open>needle in s\<close> on strings.\<close>

fun str_contains :: "string \<Rightarrow> string \<Rightarrow> bool" where
  "str_contains needle [] = (needle = [])"
| "str_contains needle (ch # s) = (take (length needle) (ch # s) = needle \<or> str_contains needle s)"

text \<open>
  \<^verbatim>\<open>needle in x\<close>: a substring of a string, an item of a list, a key of a dictionary;
  anything else is not a container.
\<close>

fun py_in :: "string \<Rightarrow> json \<Rightarrow> py_error + bool" where
  "py_in needle (JStr s) = Inr (str_contains needle s)"
| "py_in needle (JArr xs) = Inr (JStr needle \<in> set xs)"
| "py_in needle (JObj kvs) = Inr (needle \<in> fst ` set kvs)"
| "py_in needle x = Inl (TypeError (''argument of type '' @ [CHR 0x27] @ type_name x @ [CHR 0x27] @ '' is not iterable''))"

text \<open>
  \<^verbatim>\<open>[c for c in cookies if 'google' in c.get('domain', '')]\<close>, item by item, stopping
  at the first exception.
\<close>

fun google_filter :: "json list \<Rightarrow> py_error + json list" where
  "google_filter [] = Inr []"
| "google_filter (c # cs) =
     (case py_get c ''domain'' (JStr []) of
        Inl e \<Rightarrow> Inl e
      | Inr d \<Rightarrow>
          (case py_in ''google'' d of
             Inl e \<Rightarrow> Inl e
           | Inr hit \<Rightarrow>
               (case google_filter cs of
                  Inl e \<Rightarrow> Inl e
                | Inr rest \<Rightarrow> Inr (if hit then c # rest else rest))))"

definition google_cookies :: "json \<Rightarrow> py_error + json list" where
  "google_cookies state =
     (case py_get state ''cookies'' (JArr []) of
        Inl e \<Rightarrow> Inl e
      | Inr cookies \<Rightarrow>
          (case py_iter cookies of
             Inl e \<Rightarrow> Inl e
           | Inr cs \<Rightarrow> google_filter cs))"

fun check_auth_status :: "state_file \<Rightarrow> auth_status" where
  "check_auth_status Absent =
     \<lparr>authenticated = False,
      message = ''No authentication state found. Run authentication first.'',
      cookie_count = None\<rparr>"
| "check_auth_status (Unreadable m) =
     \<lparr>authenticated = False, message = ''Error reading state: '' @ m, cookie_count = None\<rparr>"
| "check_auth_status (Loaded state) =
     (case google_cookies state of
        Inl e \<Rightarrow>
          \<lparr>authenticated = False, message = ''Error reading state: '' @ error_text e,
           cookie_count = None\<rparr>
      | Inr gs \<Rightarrow>
          if gs \<noteq> []
          then \<lparr>authenticated = True, message = ''Authentication state found.'',
                cookie_count = Some (length gs)\<rparr>
          else \<lparr>authenticated = False,
                message = ''No Google cookies found in state. Re-authenticate.'',
                cookie_count = None\<rparr>)"

subsection \<open>The session state the claims speak of\<close>

text \<open>
  A session state, as Playwright writes it, is an object whose \<^verbatim>\<open>cookies\<close> entry (when
  there is one) is a list of objects, each with a string for its \<^verbatim>\<open>domain\<close> (when it
  has one). \<open>cookies_of\<close> are its cookies, \<open>has_marker\<close> says that a cookie's domain
  contains the identity provider's marker.
\<close>

definition cookies_of :: "json \<Rightarrow> json list" where
  "cookies_of state =
     (case state of
        JObj kvs \<Rightarrow> (case map_of kvs ''cookies'' of Some (JArr cs) \<Rightarrow> cs | _ \<Rightarrow> [])
      | _ \<Rightarrow> [])"

definition has_marker :: "json \<Rightarrow> bool" where
  "has_marker c =
     (case c of
        JObj kvs \<Rightarrow> (case map_of kvs ''domain'' of Some (JStr d) \<Rightarrow> str_contains ''google'' d | _ \<Rightarrow> False)
      | _ \<Rightarrow> False)"

definition cookie_shaped :: "json \<Rightarrow> bool" where
  "cookie_shaped c =
     (case c of
        JObj kvs \<Rightarrow> (case map_of kvs ''domain'' of Some (JStr d) \<Rightarrow> True | Some _ \<Rightarrow> False | None \<Rightarrow> True)
      | _ \<Rightarrow> False)"

definition state_shaped :: "json \<Rightarrow> bool" where
  "state_shaped state =
     (case state of
        JObj kvs \<Rightarrow>
          (case map_of kvs ''cookies'' of
             Some (JArr cs) \<Rightarrow> list_all cookie_shaped cs
           | Some _ \<Rightarrow> False
           | None \<Rightarrow> True)
      | _ \<Rightarrow> False)"

section \<open>Stub capabilities\<close>

text \<open>
  Stubs of the browser for the concrete runs below. \<open>quiet\<close> answers every call,
  finds nothing and has the state file. \<open>demo\<close> is a page with two notebook cards,
  1 (titled "My Notes" by its title element 11) and 2 (no title element), an
  Add source button 20, a Website option 21, a URL input 22 and a file input 23,
  but neither an Upload option nor a Create button; the state file and
  \<^verbatim>\<open>/tmp/notes.pdf\<close> exist.
\<close>

definition quiet :: capability where
  "quiet = \<lparr>does = (\<lambda>_ _. Inr ()), finds = (\<lambda>_ _. Inr None), finds_all = (\<lambda>_ _. Inr []),
            reads = (\<lambda>_ _. Inr []), path_exists = (\<lambda>_ _. True)\<rparr>"

fun demo_finds :: "trace \<Rightarrow> event \<Rightarrow> exn + elem option" where
  \<open>demo_finds tr (CardQuerySelector c s) = Inr (if c = 1 then Some 11 else None)\<close>
| \<open>demo_finds tr (QuerySelector s) =
     Inr (if s = ''button:has-text("Add source")'' then Some 20
          else if s = ''button:has-text("Website")'' then Some 21
          else if s = ''input[type="url"], input[placeholder*="URL"]'' then Some 22
          else if s = ''input[type="file"]'' then Some 23
          else None)\<close>
| \<open>demo_finds tr ev = Inr None\<close>

definition demo :: capability where
  "demo = \<lparr>does = (\<lambda>_ _. Inr ()), finds = demo_finds, finds_all = (\<lambda>_ _. Inr [1, 2]),
           reads = (\<lambda>_ ev. Inr (if ev = InnerText 11 then ''My Notes'' else [])),
           path_exists = (\<lambda>_ p. p = STATE_PATH \<or> p = ''/tmp/notes.pdf'')\<rparr>"

text \<open>\<open>demo\<close>, but a click on the Add source button raises an exception whose text is empty.\<close>

definition flaky :: capability where
  "flaky = demo\<lparr>does := \<lambda>_ ev. if ev = Click 20 then Inl (OtherException []) else Inr ()\<rparr>"

text \<open>Lower case on ASCII letters, for the concrete runs.\<close>

definition ascii_lower :: "string \<Rightarrow> string" where
  "ascii_lower s =
     map (\<lambda>ch. case map_of (zip ''ABCDEFGHIJKLMNOPQRSTUVWXYZ'' ''abcdefghijklmnopqrstuvwxyz'') ch of
                 Some l \<Rightarrow> l | None \<Rightarrow> ch) s"


text \<open>
  The trace of a run of \<^verbatim>\<open>upload_sources\<close> on \<open>demo\<close>, headless and from the empty
  trace, at the moment the notebook "my notes" has been found and clicked.
\<close>

definition demo_opened :: trace where
  "demo_opened =
     [Start, Launch True, NewContext STATE_PATH, NewPage, Goto NOTEBOOKLM_URL,
      WaitForLoadState ''networkidle'', Sleep 2000, WaitForSelector notebook_card 10000,
      QuerySelectorAll notebook_card, CardQuerySelector 1 notebook_title, InnerText 11,
      CardQuerySelector 2 notebook_title, Click 1, Sleep 2000]"

text \<open>
  \<open>twins\<close> is \<open>demo\<close> with three cards, in the order 2 (no title element), 1
  (titled "My Notes") and 3 (titled "MY NOTES" by its title element 13).
\<close>

fun twins_finds :: "trace \<Rightarrow> event \<Rightarrow> exn + elem option" where
  "twins_finds tr (CardQuerySelector c s) =
     Inr (if c = 1 then Some 11 else if c = 3 then Some 13 else None)"
| "twins_finds tr ev = demo_finds tr ev"

definition twins :: capability where
  "twins = demo\<lparr>finds := twins_finds, finds_all := (\<lambda>_ _. Inr [2, 1, 3]),
                 reads := (\<lambda>_ ev. Inr (if ev = InnerText 11 then ''My Notes''
                                       else if ev = InnerText 13 then ''MY NOTES'' else []))\<rparr>"

section \<open>Properties\<close>

lemmas act_defs = ret_def seq_def lift_def try_except_def try_finally_def perform_def
  query_def query_all_def read_text_def sleep_def with_playwright_def locate_def absorb_def

subsection \<open>Precondition failures come before any call on the browser\<close>

text \<open>
  C5. When the state file is absent, \<open>upload_sources\<close> and \<open>list_notebooks\<close> both
  return \<^verbatim>\<open>{"success": False, "error": "Not authenticated. Run authentication first."}\<close>
  and leave the trace as it was: no call on the browser is made, so a stub started
  with an empty trace ends with an empty trace.
\<close>

theorem not_authenticated_before_browser:
  assumes "\<not> path_exists cap tr STATE_PATH"
  shows "upload_sources lower cap notebook_name sources headless tr =
           (Inr (Error_only ''Not authenticated. Run authentication first.''), tr)
       \<and> list_notebooks cap headless tr =
           (Inr (Error_only ''Not authenticated. Run authentication first.''), tr)"
  using assms by (simp add: upload_sources_def list_notebooks_def)

theorem not_authenticated_before_browser_witness:
  "upload_sources id (quiet\<lparr>path_exists := \<lambda>_ _. False\<rparr>) ''Physics''
       [\<lparr>src_type = Some ''website'', src_value = Some ''https://example.org''\<rparr>] True [] =
           (Inr (Error_only ''Not authenticated. Run authentication first.''), [])
   \<and> list_notebooks (quiet\<lparr>path_exists := \<lambda>_ _. False\<rparr>) True [] =
           (Inr (Error_only ''Not authenticated. Run authentication first.''), [])"
  using not_authenticated_before_browser [of "quiet\<lparr>path_exists := \<lambda>_ _. False\<rparr>" "[]"]
  by simp

text \<open>
  C7. For a path that does not exist, \<open>add_file_source\<close> returns
  \<^verbatim>\<open>{"success": False, "error": "File not found: <path>"}\<close> and leaves the trace as it
  was: the existence check comes before every lookup and every click. The same holds
  for a request of type \<^verbatim>\<open>file\<close> dispatched by the batch.
\<close>

theorem file_not_found_before_ui:
  assumes "\<not> path_exists cap tr file_path"
  shows "add_file_source cap file_path tr = (Not_added (''File not found: '' @ file_path), tr)
       \<and> (source_type source = ''file'' \<and> source_value source = file_path \<longrightarrow>
            add_source cap source tr = (Not_added (''File not found: '' @ file_path), tr))"
  using assms by (simp add: add_file_source_def file_steps_def add_source_def act_defs)

theorem file_not_found_before_ui_witness:
  "add_file_source demo ''/tmp/missing.pdf'' [] =
     (Not_added ''File not found: /tmp/missing.pdf'', [])
   \<and> add_source demo \<lparr>src_type = Some ''file'', src_value = Some ''/tmp/missing.pdf''\<rparr> [] =
     (Not_added ''File not found: /tmp/missing.pdf'', [])"
  using file_not_found_before_ui [of demo "[]" "''/tmp/missing.pdf''"
     "\<lparr>src_type = Some ''file'', src_value = Some ''/tmp/missing.pdf''\<rparr>"]
  by (simp add: demo_def STATE_PATH_def source_type_def source_value_def)


subsection \<open>Running computations step by step\<close>

lemma seq_InrE:
  assumes "seq m f tr = (Inr y, tr')"
  obtains x t where "m tr = (Inr x, t)" and "f x t = (Inr y, tr')"
  using assms by (auto simp: seq_def split: prod.splits sum.splits)

lemma ret_eq [simp]: "ret x tr = (r, tr') \<longleftrightarrow> r = Inr x \<and> tr' = tr"
  by (auto simp: ret_def)

subsection \<open>The batch loop\<close>

lemma outcomes_length: "length (outcomes cap sources tr) = length sources"
proof (induction sources arbitrary: tr)
  case Nil
  then show ?case by simp
next
  case (Cons s rest)
  then show ?case by (cases "add_source cap s tr") simp
qed

lemma add_each_source_fold:
  "fst (add_each_source cap sources rs tr) =
     foldl (\<lambda>acc p. record_result (source_value (fst p)) (snd p) acc) rs
       (zip sources (outcomes cap sources tr))"
proof (induction sources arbitrary: rs tr)
  case Nil
  then show ?case by simp
next
  case (Cons s rest)
  then show ?case by (cases "add_source cap s tr") simp
qed

lemma fold_uploaded:
  "uploaded (foldl (\<lambda>acc p. record_result (source_value (fst p)) (snd p) acc) rs ps) =
     uploaded rs @ map (\<lambda>p. source_value (fst p)) (filter (\<lambda>p. is_added (snd p)) ps)"
proof (induction ps arbitrary: rs)
  case Nil
  then show ?case by simp
next
  case (Cons p ps)
  show ?case using Cons [of "record_result (source_value (fst p)) (snd p) rs"]
    by (cases "snd p") simp_all
qed

lemma fold_failed:
  "failed (foldl (\<lambda>acc p. record_result (source_value (fst p)) (snd p) acc) rs ps) =
     failed rs @ map (\<lambda>p. (source_value (fst p), failure_text (snd p)))
                    (filter (\<lambda>p. \<not> is_added (snd p)) ps)"
proof (induction ps arbitrary: rs)
  case Nil
  then show ?case by simp
next
  case (Cons p ps)
  show ?case using Cons [of "record_result (source_value (fst p)) (snd p) rs"]
    by (cases "snd p") simp_all
qed

lemma add_each_source_fields:
  "success (fst (add_each_source cap sources rs tr)) = success rs
   \<and> error (fst (add_each_source cap sources rs tr)) = error rs
   \<and> notebook (fst (add_each_source cap sources rs tr)) = notebook rs"
proof (induction sources arbitrary: rs tr)
  case Nil
  then show ?case by simp
next
  case (Cons s rest)
  obtain result t where st: "add_source cap s tr = (result, t)" by (cases "add_source cap s tr")
  show ?case using Cons [of "record_result (source_value s) result rs" "t @ [Sleep 1000]"] st
    by (cases result) simp_all
qed

lemma filter_one_fails:
  assumes "i < length xs" and "\<not> P (xs ! i)" and "\<forall>j<length xs. j \<noteq> i \<longrightarrow> P (xs ! j)"
  shows "filter (\<lambda>x. \<not> P x) xs = [xs ! i]" and "filter P xs = take i xs @ drop (Suc i) xs"
proof -
  have split: "xs = take i xs @ xs ! i # drop (Suc i) xs"
    using assms(1) by (rule id_take_nth_drop)
  have before: "\<forall>x\<in>set (take i xs). P x"
  proof
    fix x assume "x \<in> set (take i xs)"
    then obtain j where "j < length (take i xs)" and "take i xs ! j = x"
      by (auto simp: in_set_conv_nth)
    then show "P x" using assms(1,3) by auto
  qed
  have after: "\<forall>x\<in>set (drop (Suc i) xs). P x"
  proof
    fix x assume "x \<in> set (drop (Suc i) xs)"
    then obtain j where j: "j < length (drop (Suc i) xs)" and "drop (Suc i) xs ! j = x"
      by (auto simp: in_set_conv_nth)
    then have "xs ! (Suc i + j) = x" and "Suc i + j < length xs" by auto
    then show "P x" using assms(3) by auto
  qed
  have f1: "filter (\<lambda>x. \<not> P x) (take i xs) = []" using before by (simp add: filter_empty_conv)
  have f2: "filter (\<lambda>x. \<not> P x) (drop (Suc i) xs) = []" using after by (simp add: filter_empty_conv)
  have g1: "filter P (take i xs) = take i xs" using before by (simp add: filter_id_conv)
  have g2: "filter P (drop (Suc i) xs) = drop (Suc i) xs" using after by (simp add: filter_id_conv)
  have "filter (\<lambda>x. \<not> P x) xs = filter (\<lambda>x. \<not> P x) (take i xs @ xs ! i # drop (Suc i) xs)"
    using split by simp
  then show "filter (\<lambda>x. \<not> P x) xs = [xs ! i]" using f1 f2 assms(2) by simp
  have "filter P xs = filter P (take i xs @ xs ! i # drop (Suc i) xs)"
    using split by simp
  then show "filter P xs = take i xs @ drop (Suc i) xs" using g1 g2 assms(2) by simp
qed

lemma upload_sources_returns:
  assumes "upload_sources lower cap name sources headless tr = (Inr (Payload r), tr')"
  shows "\<exists>t1. guarded_upload lower cap name sources (initial_results name)
                  (tr @ [Start, Launch headless, NewContext STATE_PATH, NewPage]) = (Inr r, t1)
               \<and> tr' = t1 @ [StorageState STATE_PATH, Close, Stop]"
  using assms
  by (auto simp: upload_sources_def guarded_upload_def act_defs split: prod.splits sum.splits if_splits)

lemma guarded_upload_never_raises:
  "\<exists>r t1. guarded_upload lower cap name sources rs t = (Inr r, t1)"
  by (auto simp: guarded_upload_def act_defs split: prod.splits sum.splits)



subsection \<open>A run of \<open>upload_sources\<close>, step by step\<close>

lemma seq_assoc: "seq (seq m f) g = seq m (\<lambda>x. seq (f x) g)"
  by (auto simp: seq_def fun_eq_iff split: prod.splits sum.splits)

lemma upload_body_open:
  "upload_body lower cap name sources rs =
     seq (open_notebook lower cap name) (\<lambda>resolved.
       if \<not> resolved then ret (rs\<lparr>success := False, error := Some ''Could not create notebook''\<rparr>)
       else lift (add_each_source cap sources rs))"
  by (simp add: upload_body_def open_notebook_def seq_assoc)

lemma guarded_upload_cases:
  "guarded_upload lower cap name sources rs t =
     (case open_notebook lower cap name t of
        (Inl e, t1) \<Rightarrow> (Inr (rs\<lparr>success := False, error := Some (str e)\<rparr>), t1)
      | (Inr resolved, t1) \<Rightarrow>
          if resolved
          then (Inr (fst (add_each_source cap sources rs t1)), snd (add_each_source cap sources rs t1))
          else (Inr (rs\<lparr>success := False, error := Some ''Could not create notebook''\<rparr>), t1))"
  by (simp add: guarded_upload_def upload_body_open try_except_def seq_def lift_def ret_def
        split: prod.splits sum.splits)

lemma upload_sources_loop:
  assumes "upload_sources lower cap name sources headless t0 = (Inr (Payload r), t')"
    and "open_notebook lower cap name (t0 @ [Start, Launch headless, NewContext STATE_PATH, NewPage]) =
           (Inr True, tb)"
  shows "r = fst (add_each_source cap sources (initial_results name) tb)"
    and "t' = snd (add_each_source cap sources (initial_results name) tb) @
                [StorageState STATE_PATH, Close, Stop]"
proof -
  obtain t1 where g: "guarded_upload lower cap name sources (initial_results name)
        (t0 @ [Start, Launch headless, NewContext STATE_PATH, NewPage]) = (Inr r, t1)"
    and t: "t' = t1 @ [StorageState STATE_PATH, Close, Stop]"
    using upload_sources_returns [OF assms(1)] by blast
  from g assms(2) show "r = fst (add_each_source cap sources (initial_results name) tb)"
    by (simp add: guarded_upload_cases)
  from g assms(2) t show "t' = snd (add_each_source cap sources (initial_results name) tb) @
                [StorageState STATE_PATH, Close, Stop]"
    by (simp add: guarded_upload_cases)
qed

lemma outcomes_run:
  "k < length sources \<Longrightarrow>
     outcomes cap sources tr ! k =
       fst (add_source cap (sources ! k) (snd (add_each_source cap (take k sources) rs tr)))"
proof (induction sources arbitrary: tr k rs)
  case Nil
  then show ?case by simp
next
  case (Cons s rest)
  obtain result t where st: "add_source cap s tr = (result, t)" by (cases "add_source cap s tr")
  show ?case
  proof (cases k)
    case 0
    then show ?thesis using st by simp
  next
    case (Suc j)
    then have "j < length rest" using Cons.prems by simp
    from Cons.IH [OF this, of "t @ [Sleep 1000]" "record_result (source_value s) result rs"]
    show ?thesis using st Suc by simp
  qed
qed

text \<open>What the error text of a failed request is, at the trace where the request runs.\<close>

lemma website_steps_text:
  assumes "website_steps cap url tr = (Inr (Not_added e), tr')"
  shows "e \<in> set [''Could not find Add Source button'', ''Could not find Website option'',
                   ''Could not find URL input'']"
  using assms unfolding website_steps_def
  by (auto elim!: seq_InrE split: option.splits)

lemma file_steps_text:
  assumes "file_steps cap p tr = (Inr (Not_added e), tr')"
  shows "e \<in> set [''File not found: '' @ p, ''Could not find Add Source button'',
                   ''Could not find file input'']"
  using assms unfolding file_steps_def file_ui_steps_def
  by (auto elim!: seq_InrE split: option.splits if_splits)

lemma absorb_text:
  assumes "fst (absorb m t) = Not_added e"
  shows "(\<exists>x. fst (m t) = Inl x \<and> e = str x) \<or> fst (m t) = Inr (Not_added e)"
  using assms by (auto simp: absorb_def split: prod.splits sum.splits)

lemma add_source_text:
  assumes "fst (add_source cap s t) = Not_added e"
  shows "if source_type s = ''website'' then
           (\<exists>x. fst (website_steps cap (source_value s) t) = Inl x \<and> e = str x)
           \<or> (fst (website_steps cap (source_value s) t) = Inr (Not_added e)
              \<and> e \<in> set [''Could not find Add Source button'', ''Could not find Website option'',
                          ''Could not find URL input''])
         else if source_type s = ''file'' then
           (\<exists>x. fst (file_steps cap (source_value s) t) = Inl x \<and> e = str x)
           \<or> (fst (file_steps cap (source_value s) t) = Inr (Not_added e)
              \<and> e \<in> set [''File not found: '' @ source_value s,
                          ''Could not find Add Source button'', ''Could not find file input''])
         else e = ''Unknown source type: '' @ source_type s"
proof (cases "source_type s = ''website''")
  case True
  then have "fst (absorb (website_steps cap (source_value s)) t) = Not_added e"
    using assms by (simp add: add_source_def add_website_source_def)
  from absorb_text [OF this] show ?thesis
    using True website_steps_text [of cap "source_value s" t e]
    by (metis prod.collapse)
next
  case False
  show ?thesis
  proof (cases "source_type s = ''file''")
    case True
    then have "fst (absorb (file_steps cap (source_value s)) t) = Not_added e"
      using assms False by (simp add: add_source_def add_file_source_def)
    from absorb_text [OF this] show ?thesis
      using True False file_steps_text [of cap "source_value s" t e]
      by (metis prod.collapse)
  next
    case no: False
    then show ?thesis using assms False by (auto simp: add_source_def)
  qed
qed

subsection \<open>One failing request in a batch\<close>

text \<open>
  C3, as the code has it. Take a run of \<open>upload_sources\<close> that returns the result
  \<open>r\<close> and in which the notebook was found or created, so that the loop over the
  sources starts, at the trace \<open>tb\<close>; let request \<open>i\<close> fail with the error text \<open>e\<close>
  and every other request succeed. Then there is one outcome per request, each the
  result of the request's own add operation at the trace the run has reached by
  then; the run goes through the whole batch: \<open>r\<close> is flagged a success,
  \<open>uploaded\<close> holds the values of all the other requests, in order (so its length
  is \<open>N - 1\<close>), and \<open>failed\<close> is the single entry made of request \<open>i\<close>'s value and
  \<open>e\<close>. The text \<open>e\<close> is the text \<^verbatim>\<open>str(e)\<close> of the exception when the request's
  steps raised one, at that trace, and it is passed on as it is, empty or not;
  otherwise it is one of the messages the code writes itself, none of them empty.
\<close>

theorem one_failure_does_not_stop_the_batch:
  assumes "upload_sources lower cap name sources headless t0 = (Inr (Payload r), t')"
    and "open_notebook lower cap name (t0 @ [Start, Launch headless, NewContext STATE_PATH, NewPage]) =
           (Inr True, tb)"
    and "i < length sources"
    and "outcomes cap sources tb ! i = Not_added e"
    and "\<forall>j<length sources. j \<noteq> i \<longrightarrow> is_added (outcomes cap sources tb ! j)"
  shows "length (outcomes cap sources tb) = length sources
       \<and> (\<forall>k<length sources. outcomes cap sources tb ! k =
            fst (add_source cap (sources ! k)
                   (snd (add_each_source cap (take k sources) (initial_results name) tb))))
       \<and> r = fst (add_each_source cap sources (initial_results name) tb)
       \<and> t' = snd (add_each_source cap sources (initial_results name) tb) @
                 [StorageState STATE_PATH, Close, Stop]
       \<and> success r \<and> error r = None \<and> notebook r = name
       \<and> uploaded r = map source_value (take i sources @ drop (Suc i) sources)
       \<and> length (uploaded r) = length sources - 1
       \<and> failed r = [(source_value (sources ! i), e)]
       \<and> (if source_type (sources ! i) = ''website'' then
             (\<exists>x. fst (website_steps cap (source_value (sources ! i))
                          (snd (add_each_source cap (take i sources) (initial_results name) tb))) = Inl x
                  \<and> e = str x)
             \<or> (fst (website_steps cap (source_value (sources ! i))
                        (snd (add_each_source cap (take i sources) (initial_results name) tb))) =
                   Inr (Not_added e)
                \<and> e \<in> set [''Could not find Add Source button'', ''Could not find Website option'',
                            ''Could not find URL input''])
           else if source_type (sources ! i) = ''file'' then
             (\<exists>x. fst (file_steps cap (source_value (sources ! i))
                          (snd (add_each_source cap (take i sources) (initial_results name) tb))) = Inl x
                  \<and> e = str x)
             \<or> (fst (file_steps cap (source_value (sources ! i))
                        (snd (add_each_source cap (take i sources) (initial_results name) tb))) =
                   Inr (Not_added e)
                \<and> e \<in> set [''File not found: '' @ source_value (sources ! i),
                            ''Could not find Add Source button'', ''Could not find file input''])
           else e = ''Unknown source type: '' @ source_type (sources ! i))
       \<and> ((source_type (sources ! i) = ''website'' \<longrightarrow>
              (\<forall>x. fst (website_steps cap (source_value (sources ! i))
                          (snd (add_each_source cap (take i sources) (initial_results name) tb))) \<noteq> Inl x))
           \<and> (source_type (sources ! i) = ''file'' \<longrightarrow>
              (\<forall>x. fst (file_steps cap (source_value (sources ! i))
                          (snd (add_each_source cap (take i sources) (initial_results name) tb))) \<noteq> Inl x))
           \<longrightarrow> e \<noteq> [])"
proof -
  let ?ps = "zip sources (outcomes cap sources tb)"
  let ?ok = "\<lambda>p. is_added (snd p)"
  let ?r = "fst (add_each_source cap sources (initial_results name) tb)"
  let ?ti = "snd (add_each_source cap (take i sources) (initial_results name) tb)"
  have len: "length (outcomes cap sources tb) = length sources"
    by (rule outcomes_length)
  have local: "\<forall>k<length sources. outcomes cap sources tb ! k =
            fst (add_source cap (sources ! k)
                   (snd (add_each_source cap (take k sources) (initial_results name) tb)))"
    using outcomes_run by blast
  have r: "r = ?r" using upload_sources_loop(1) [OF assms(1,2)] .
  have t: "t' = snd (add_each_source cap sources (initial_results name) tb) @
                 [StorageState STATE_PATH, Close, Stop]"
    using upload_sources_loop(2) [OF assms(1,2)] .
  have flags: "success ?r \<and> error ?r = None \<and> notebook ?r = name"
    by (simp add: add_each_source_fields initial_results_def)
  have li: "i < length ?ps" using assms(3) len by simp
  have pi: "?ps ! i = (sources ! i, Not_added e)" using assms(3,4) len by simp
  have bad: "\<not> ?ok (?ps ! i)" using pi by simp
  have good: "\<forall>j<length ?ps. j \<noteq> i \<longrightarrow> ?ok (?ps ! j)" using assms(5) len by simp
  have nok: "filter (\<lambda>p. \<not> ?ok p) ?ps = [?ps ! i]"
    using filter_one_fails(1) [of i ?ps ?ok, OF li bad good] .
  have ok: "filter ?ok ?ps = take i ?ps @ drop (Suc i) ?ps"
    using filter_one_fails(2) [of i ?ps ?ok, OF li bad good] .
  have vals: "map (\<lambda>p. source_value (fst p)) (take i ?ps @ drop (Suc i) ?ps) =
              map source_value (take i sources @ drop (Suc i) sources)"
  proof -
    have "map fst ?ps = sources" using len by (simp add: map_fst_zip)
    then have "map fst (take i ?ps @ drop (Suc i) ?ps) = take i sources @ drop (Suc i) sources"
      by (metis drop_map map_append take_map)
    then have "map source_value (map fst (take i ?ps @ drop (Suc i) ?ps)) =
               map source_value (take i sources @ drop (Suc i) sources)" by simp
    then show ?thesis by (simp add: comp_def)
  qed
  have "uploaded ?r =
          uploaded (initial_results name) @ map source_value (take i sources @ drop (Suc i) sources)"
    by (simp only: add_each_source_fold fold_uploaded ok vals)
  then have up: "uploaded ?r = map source_value (take i sources @ drop (Suc i) sources)"
    by (simp add: initial_results_def)
  have n1: "length (take i sources @ drop (Suc i) sources) = length sources - 1"
    using assms(3) by simp
  have upn: "length (uploaded ?r) = length sources - 1" using n1 by (simp add: up)
  have "failed ?r = failed (initial_results name) @ [(source_value (sources ! i), e)]"
    by (simp add: add_each_source_fold fold_failed nok pi)
  then have fl: "failed ?r = [(source_value (sources ! i), e)]"
    by (simp add: initial_results_def)
  have "fst (add_source cap (sources ! i) ?ti) = Not_added e"
    using local assms(3,4) by simp
  note etext = add_source_text [OF this]
  have nonempty: "(source_type (sources ! i) = ''website'' \<longrightarrow>
              (\<forall>x. fst (website_steps cap (source_value (sources ! i)) ?ti) \<noteq> Inl x))
           \<and> (source_type (sources ! i) = ''file'' \<longrightarrow>
              (\<forall>x. fst (file_steps cap (source_value (sources ! i)) ?ti) \<noteq> Inl x))
           \<longrightarrow> e \<noteq> []"
    using etext by (auto split: if_splits)
  show ?thesis using len local r t flags up upn fl etext nonempty by simp
qed

theorem one_failure_does_not_stop_the_batch_witness:
  "length (outcomes demo
      [\<lparr>src_type = None, src_value = Some ''https://example.org''\<rparr>,
       \<lparr>src_type = Some ''pdf'', src_value = Some ''notes.pdf''\<rparr>,
       \<lparr>src_type = Some ''file'', src_value = Some ''/tmp/notes.pdf''\<rparr>] demo_opened) = 3
   \<and> fst (add_each_source demo
      [\<lparr>src_type = None, src_value = Some ''https://example.org''\<rparr>,
       \<lparr>src_type = Some ''pdf'', src_value = Some ''notes.pdf''\<rparr>,
       \<lparr>src_type = Some ''file'', src_value = Some ''/tmp/notes.pdf''\<rparr>]
      (initial_results ''my notes'') demo_opened) =
     \<lparr>success = True, notebook = ''my notes'',
      uploaded = [''https://example.org'', ''/tmp/notes.pdf''],
      failed = [(''notes.pdf'', ''Unknown source type: pdf'')], error = None\<rparr>"
proof -
  let ?srcs = "[\<lparr>src_type = None, src_value = Some ''https://example.org''\<rparr>,
       \<lparr>src_type = Some ''pdf'', src_value = Some ''notes.pdf''\<rparr>,
       \<lparr>src_type = Some ''file'', src_value = Some ''/tmp/notes.pdf''\<rparr>]"
  let ?r = "\<lparr>success = True, notebook = ''my notes'',
      uploaded = [''https://example.org'', ''/tmp/notes.pdf''],
      failed = [(''notes.pdf'', ''Unknown source type: pdf'')], error = None\<rparr>"
  have "fst (upload_sources ascii_lower demo ''my notes'' ?srcs True []) = Inr (Payload ?r)"
    by code_simp
  then have h1: "upload_sources ascii_lower demo ''my notes'' ?srcs True [] =
      (Inr (Payload ?r), snd (upload_sources ascii_lower demo ''my notes'' ?srcs True []))"
    by (metis prod.collapse)
  have h2: "open_notebook ascii_lower demo ''my notes''
      ([] @ [Start, Launch True, NewContext STATE_PATH, NewPage]) = (Inr True, demo_opened)"
    by code_simp
  have run: "outcomes demo ?srcs demo_opened =
      [Added_url ''https://example.org'', Not_added ''Unknown source type: pdf'',
       Added_file ''/tmp/notes.pdf'']"
    by code_simp
  have h3: "1 < length ?srcs" by simp
  have h4: "outcomes demo ?srcs demo_opened ! 1 = Not_added ''Unknown source type: pdf''"
    unfolding run by simp
  have h5: "\<forall>j<length ?srcs. j \<noteq> 1 \<longrightarrow> is_added (outcomes demo ?srcs demo_opened ! j)"
    unfolding run by (auto simp: less_Suc_eq)
  have "length (outcomes demo ?srcs demo_opened) = length ?srcs
        \<and> ?r = fst (add_each_source demo ?srcs (initial_results ''my notes'') demo_opened)"
    using one_failure_does_not_stop_the_batch [OF h1 h2 h3 h4 h5] by blast
  then show ?thesis by simp
qed
text \<open>
  The claim as stated promises a non-empty error string for every failing request.
  On the stub \<open>flaky\<close> the click on the Add source button raises an exception whose
  text is empty; the request fails, and its entry in \<open>failed\<close> carries the empty string.
\<close>

theorem one_failure_empty_error_counterexample:
  "outcomes flaky [\<lparr>src_type = Some ''website'', src_value = Some ''https://example.org''\<rparr>] []
     = [Not_added []]
   \<and> fst (upload_sources ascii_lower flaky ''my notes''
        [\<lparr>src_type = Some ''website'', src_value = Some ''https://example.org''\<rparr>] True [])
     = Inr (Payload \<lparr>success = True, notebook = ''my notes'', uploaded = [],
                     failed = [(''https://example.org'', [])], error = None\<rparr>)"
  by code_simp


subsection \<open>Requests with missing fields or an unknown type\<close>

lemma outcomes_unknown:
  assumes "i < length sources"
    and "source_type (sources ! i) \<noteq> ''website''" and "source_type (sources ! i) \<noteq> ''file''"
  shows "outcomes cap sources tr ! i =
           Not_added (''Unknown source type: '' @ source_type (sources ! i))"
  using assms
proof (induction sources arbitrary: tr i)
  case Nil
  then show ?case by simp
next
  case (Cons s rest)
  obtain r t where st: "add_source cap s tr = (r, t)" by (cases "add_source cap s tr")
  show ?case
  proof (cases i)
    case 0
    then show ?thesis using st Cons.prems by (auto simp: add_source_def)
  next
    case (Suc k)
    then have "k < length rest" and "source_type (rest ! k) \<noteq> ''website''"
      and "source_type (rest ! k) \<noteq> ''file''" using Cons.prems by simp_all
    from Cons.IH [OF this, of "t @ [Sleep 1000]"] show ?thesis using st Suc by simp
  qed
qed

lemma failed_outcome_recorded:
  assumes "i < length sources" and "outcomes cap sources tr ! i = Not_added e"
  shows "(source_value (sources ! i), e) \<in> set (failed (fst (add_each_source cap sources rs tr)))"
proof -
  let ?ps = "zip sources (outcomes cap sources tr)"
  have len: "length (outcomes cap sources tr) = length sources" by (rule outcomes_length)
  have "?ps ! i = (sources ! i, Not_added e)" using assms len by simp
  moreover have "i < length ?ps" using assms(1) len by simp
  ultimately have "(sources ! i, Not_added e) \<in> set ?ps" by (metis nth_mem)
  then have "(sources ! i, Not_added e) \<in> set (filter (\<lambda>p. \<not> is_added (snd p)) ?ps)" by simp
  then have "(source_value (sources ! i), e) \<in>
      (\<lambda>p. (source_value (fst p), failure_text (snd p))) ` set (filter (\<lambda>p. \<not> is_added (snd p)) ?ps)"
    by force
  then show ?thesis by (simp add: add_each_source_fold fold_failed)
qed

lemma every_request_recorded:
  "length (uploaded (fst (add_each_source cap sources rs tr)))
     + length (failed (fst (add_each_source cap sources rs tr))) =
   length (uploaded rs) + length (failed rs) + length sources"
proof -
  let ?ps = "zip sources (outcomes cap sources tr)"
  have "length ?ps = length sources" by (simp add: outcomes_length)
  moreover have "length (filter (\<lambda>p. is_added (snd p)) ?ps)
      + length (filter (\<lambda>p. \<not> is_added (snd p)) ?ps) = length ?ps"
    by (rule sum_length_filter_compl)
  ultimately show ?thesis by (simp add: add_each_source_fold fold_uploaded fold_failed)
qed

lemma uploaded_outcome_recorded:
  assumes "i < length sources" and "is_added (outcomes cap sources tr ! i)"
  shows "source_value (sources ! i) \<in> set (uploaded (fst (add_each_source cap sources rs tr)))"
proof -
  let ?ps = "zip sources (outcomes cap sources tr)"
  have len: "length (outcomes cap sources tr) = length sources" by (rule outcomes_length)
  have "?ps ! i = (sources ! i, outcomes cap sources tr ! i)" using assms len by simp
  moreover have "i < length ?ps" using assms(1) len by simp
  ultimately have "(sources ! i, outcomes cap sources tr ! i) \<in> set ?ps" by (metis nth_mem)
  then have "(sources ! i, outcomes cap sources tr ! i) \<in> set (filter (\<lambda>p. is_added (snd p)) ?ps)"
    using assms(2) by simp
  then have "source_value (sources ! i) \<in>
      (\<lambda>p. source_value (fst p)) ` set (filter (\<lambda>p. is_added (snd p)) ?ps)"
    by force
  then show ?thesis by (simp add: add_each_source_fold fold_uploaded)
qed

text \<open>
  C10. Take a run of \<open>upload_sources\<close> that returns the result \<open>r\<close> and in which the
  loop over the sources starts, at the trace \<open>tb\<close>. A request without the key
  \<^verbatim>\<open>type\<close> is handled as a request of type \<^verbatim>\<open>website\<close>: its outcome is that of
  \<open>add_website_source\<close> at the trace the run has reached by then. A request
  without the key \<^verbatim>\<open>value\<close> has the empty string for its value. A request at any
  position \<open>i\<close> whose type is neither \<^verbatim>\<open>website\<close> nor \<^verbatim>\<open>file\<close> has the outcome
  "Unknown source type: <type>", and \<open>failed\<close> has the entry made of its value and
  that text. Nothing is rejected up front and the batch goes on: the run is flagged
  a success, there is one outcome per request, every request is in \<open>uploaded\<close>
  or in \<open>failed\<close> according to its outcome, and the two lists have \<open>N\<close> entries
  together.
\<close>

theorem unknown_type_is_a_failed_entry:
  assumes "upload_sources lower cap name sources headless t0 = (Inr (Payload r), t')"
    and "open_notebook lower cap name (t0 @ [Start, Launch headless, NewContext STATE_PATH, NewPage]) =
           (Inr True, tb)"
    and "i < length sources"
  shows "(src_type (sources ! i) = None \<longrightarrow>
            source_type (sources ! i) = ''website''
          \<and> outcomes cap sources tb ! i =
              fst (add_website_source cap (source_value (sources ! i))
                     (snd (add_each_source cap (take i sources) (initial_results name) tb))))
       \<and> (src_value (sources ! i) = None \<longrightarrow> source_value (sources ! i) = [])
       \<and> (source_type (sources ! i) \<noteq> ''website'' \<and> source_type (sources ! i) \<noteq> ''file'' \<longrightarrow>
            outcomes cap sources tb ! i =
              Not_added (''Unknown source type: '' @ source_type (sources ! i))
          \<and> (source_value (sources ! i), ''Unknown source type: '' @ source_type (sources ! i))
              \<in> set (failed r))
       \<and> r = fst (add_each_source cap sources (initial_results name) tb)
       \<and> success r \<and> error r = None
       \<and> length (outcomes cap sources tb) = length sources
       \<and> (\<forall>k<length sources.
            if is_added (outcomes cap sources tb ! k)
            then source_value (sources ! k) \<in> set (uploaded r)
            else (source_value (sources ! k), failure_text (outcomes cap sources tb ! k))
                   \<in> set (failed r))
       \<and> length (uploaded r) + length (failed r) = length sources"
proof -
  let ?r = "fst (add_each_source cap sources (initial_results name) tb)"
  have r: "r = ?r" using upload_sources_loop(1) [OF assms(1,2)] .
  have a: "src_type (sources ! i) = None \<longrightarrow>
            source_type (sources ! i) = ''website''
          \<and> outcomes cap sources tb ! i =
              fst (add_website_source cap (source_value (sources ! i))
                     (snd (add_each_source cap (take i sources) (initial_results name) tb)))"
    using outcomes_run [OF assms(3), of cap tb "initial_results name"]
    by (simp add: source_type_def add_source_def)
  have b: "src_value (sources ! i) = None \<longrightarrow> source_value (sources ! i) = []"
    by (simp add: source_value_def)
  have c: "source_type (sources ! i) \<noteq> ''website'' \<and> source_type (sources ! i) \<noteq> ''file'' \<longrightarrow>
            outcomes cap sources tb ! i =
              Not_added (''Unknown source type: '' @ source_type (sources ! i))
          \<and> (source_value (sources ! i), ''Unknown source type: '' @ source_type (sources ! i))
              \<in> set (failed ?r)"
  proof (intro impI)
    assume u: "source_type (sources ! i) \<noteq> ''website'' \<and> source_type (sources ! i) \<noteq> ''file''"
    have o: "outcomes cap sources tb ! i =
              Not_added (''Unknown source type: '' @ source_type (sources ! i))"
      using outcomes_unknown [OF assms(3)] u by blast
    show "outcomes cap sources tb ! i =
              Not_added (''Unknown source type: '' @ source_type (sources ! i))
          \<and> (source_value (sources ! i), ''Unknown source type: '' @ source_type (sources ! i))
              \<in> set (failed ?r)"
      using o failed_outcome_recorded [OF assms(3) o] by blast
  qed
  have flags: "success ?r \<and> error ?r = None"
    by (simp add: add_each_source_fields initial_results_def)
  have len: "length (outcomes cap sources tb) = length sources" by (rule outcomes_length)
  have each: "\<forall>k<length sources.
            if is_added (outcomes cap sources tb ! k)
            then source_value (sources ! k) \<in> set (uploaded ?r)
            else (source_value (sources ! k), failure_text (outcomes cap sources tb ! k))
                   \<in> set (failed ?r)"
  proof (intro allI impI)
    fix k assume k: "k < length sources"
    show "if is_added (outcomes cap sources tb ! k)
            then source_value (sources ! k) \<in> set (uploaded ?r)
            else (source_value (sources ! k), failure_text (outcomes cap sources tb ! k))
                   \<in> set (failed ?r)"
    proof (cases "outcomes cap sources tb ! k")
      case (Not_added e)
      then show ?thesis using failed_outcome_recorded [OF k Not_added] by simp
    next
      case (Added_url u)
      then show ?thesis using uploaded_outcome_recorded [OF k, of cap tb] by simp
    next
      case (Added_file f)
      then show ?thesis using uploaded_outcome_recorded [OF k, of cap tb] by simp
    qed
  qed
  have total: "length (uploaded ?r) + length (failed ?r) = length sources"
    using every_request_recorded [of cap sources "initial_results name" tb]
    by (simp add: initial_results_def)
  show ?thesis unfolding r using a b c flags len each total by blast
qed

theorem unknown_type_is_a_failed_entry_witness:
  "outcomes demo [\<lparr>src_type = Some ''pdf'', src_value = None\<rparr>,
                  \<lparr>src_type = None, src_value = Some ''https://example.org''\<rparr>] demo_opened ! 0 =
     Not_added ''Unknown source type: pdf''
   \<and> fst (add_each_source demo
        [\<lparr>src_type = Some ''pdf'', src_value = None\<rparr>,
         \<lparr>src_type = None, src_value = Some ''https://example.org''\<rparr>]
        (initial_results ''my notes'') demo_opened) =
     \<lparr>success = True, notebook = ''my notes'', uploaded = [''https://example.org''],
      failed = [([], ''Unknown source type: pdf'')], error = None\<rparr>
   \<and> length (outcomes demo [\<lparr>src_type = Some ''pdf'', src_value = None\<rparr>,
                  \<lparr>src_type = None, src_value = Some ''https://example.org''\<rparr>] demo_opened) = 2"
proof -
  let ?srcs = "[\<lparr>src_type = Some ''pdf'', src_value = None\<rparr>,
                \<lparr>src_type = None, src_value = Some ''https://example.org''\<rparr>]"
  let ?r = "\<lparr>success = True, notebook = ''my notes'', uploaded = [''https://example.org''],
      failed = [([], ''Unknown source type: pdf'')], error = None\<rparr>"
  have "fst (upload_sources ascii_lower demo ''my notes'' ?srcs True []) = Inr (Payload ?r)"
    by code_simp
  then have h1: "upload_sources ascii_lower demo ''my notes'' ?srcs True [] =
      (Inr (Payload ?r), snd (upload_sources ascii_lower demo ''my notes'' ?srcs True []))"
    by (metis prod.collapse)
  have h2: "open_notebook ascii_lower demo ''my notes''
      ([] @ [Start, Launch True, NewContext STATE_PATH, NewPage]) = (Inr True, demo_opened)"
    by code_simp
  have h3: "0 < length ?srcs" by simp
  have ty: "source_type (?srcs ! 0) = ''pdf''" by (simp add: source_type_def)
  have "(source_type (?srcs ! 0) \<noteq> ''website'' \<and> source_type (?srcs ! 0) \<noteq> ''file'' \<longrightarrow>
            outcomes demo ?srcs demo_opened ! 0 =
              Not_added (''Unknown source type: '' @ source_type (?srcs ! 0)))
        \<and> ?r = fst (add_each_source demo ?srcs (initial_results ''my notes'') demo_opened)
        \<and> length (outcomes demo ?srcs demo_opened) = length ?srcs"
    using unknown_type_is_a_failed_entry [OF h1 h2 h3] by blast
  then show ?thesis unfolding ty by simp
qed

subsection \<open>The top-level success flag\<close>

lemma open_notebook_False:
  assumes "open_notebook lower cap name ts = (Inr False, tb)"
  shows "\<exists>nbs t1. get_notebooks cap
                     (ts @ [Goto NOTEBOOKLM_URL, WaitForLoadState ''networkidle'', Sleep 2000]) =
                     (Inr nbs, t1)
                 \<and> find (\<lambda>n. lower (title n) = lower name) nbs = None
                 \<and> create_notebook cap name t1 = (False, tb)"
  using assms unfolding open_notebook_def resolve_notebook_def
  by (auto elim!: seq_InrE simp: perform_def sleep_def lift_def split: option.splits prod.splits)

lemma upload_sources_flag:
  assumes "upload_sources lower cap name sources headless t0 = (Inr (Payload r), t')"
  shows "(\<forall>tb. open_notebook lower cap name
                 (t0 @ [Start, Launch headless, NewContext STATE_PATH, NewPage]) = (Inr True, tb) \<longrightarrow>
            success r \<and> error r = None
          \<and> r = fst (add_each_source cap sources (initial_results name) tb)
          \<and> length (uploaded r) + length (failed r) = length sources)
       \<and> (\<forall>tb. open_notebook lower cap name
                 (t0 @ [Start, Launch headless, NewContext STATE_PATH, NewPage]) = (Inr False, tb) \<longrightarrow>
            \<not> success r \<and> error r = Some ''Could not create notebook''
          \<and> uploaded r = [] \<and> failed r = []
          \<and> (\<exists>nbs t1. get_notebooks cap
                 (t0 @ [Start, Launch headless, NewContext STATE_PATH, NewPage,
                        Goto NOTEBOOKLM_URL, WaitForLoadState ''networkidle'', Sleep 2000]) =
                 (Inr nbs, t1)
               \<and> find (\<lambda>n. lower (title n) = lower name) nbs = None
               \<and> create_notebook cap name t1 = (False, tb)))
       \<and> (\<forall>e tb. open_notebook lower cap name
                 (t0 @ [Start, Launch headless, NewContext STATE_PATH, NewPage]) = (Inl e, tb) \<longrightarrow>
            \<not> success r \<and> error r = Some (str e) \<and> uploaded r = [] \<and> failed r = [])
       \<and> (success r \<longleftrightarrow>
            (\<exists>tb. open_notebook lower cap name
                 (t0 @ [Start, Launch headless, NewContext STATE_PATH, NewPage]) = (Inr True, tb)))"
proof -
  let ?ts = "t0 @ [Start, Launch headless, NewContext STATE_PATH, NewPage]"
  obtain t1 where g: "guarded_upload lower cap name sources (initial_results name) ?ts = (Inr r, t1)"
    using upload_sources_returns [OF assms] by blast
  obtain x tb where o: "open_notebook lower cap name ?ts = (x, tb)"
    by (cases "open_notebook lower cap name ?ts")
  show ?thesis
  proof (cases x)
    case (Inl e)
    then have "r = (initial_results name)\<lparr>success := False, error := Some (str e)\<rparr>"
      using g o by (simp add: guarded_upload_cases)
    then show ?thesis using o Inl by (simp add: initial_results_def)
  next
    case (Inr resolved)
    show ?thesis
    proof (cases resolved)
      case True
      then have r: "r = fst (add_each_source cap sources (initial_results name) tb)"
        using g o Inr by (simp add: guarded_upload_cases)
      have "success r \<and> error r = None" unfolding r
        by (simp add: add_each_source_fields initial_results_def)
      moreover have "length (uploaded r) + length (failed r) = length sources" unfolding r
        using every_request_recorded [of cap sources "initial_results name" tb]
        by (simp add: initial_results_def)
      ultimately show ?thesis using o Inr True r by simp
    next
      case False
      then have "r = (initial_results name)\<lparr>success := False,
                     error := Some ''Could not create notebook''\<rparr>"
        using g o Inr by (simp add: guarded_upload_cases)
      moreover have "\<exists>nbs t1. get_notebooks cap
                 (?ts @ [Goto NOTEBOOKLM_URL, WaitForLoadState ''networkidle'', Sleep 2000]) =
                 (Inr nbs, t1)
               \<and> find (\<lambda>n. lower (title n) = lower name) nbs = None
               \<and> create_notebook cap name t1 = (False, tb)"
        using open_notebook_False [of lower cap name ?ts tb] o Inr False by simp
      ultimately show ?thesis using o Inr False by (simp add: initial_results_def)
    qed
  qed
qed

lemma upload_sources_error_only:
  assumes "upload_sources lower cap name sources headless t0 = (Inr (Error_only msg), tn)"
  shows "\<not> path_exists cap t0 STATE_PATH
       \<and> msg = ''Not authenticated. Run authentication first.'' \<and> tn = t0"
  using assms
  by (auto simp: upload_sources_def act_defs split: if_splits prod.splits sum.splits)

text \<open>
  C9. Take a run of \<open>upload_sources\<close> that returns the result \<open>r\<close>. When the notebook
  was found or created, \<open>r\<close> is the result of the loop over the sources and its
  \<open>success\<close> is true, whatever the outcomes of the requests were: the loop raises
  nothing and never touches the flag. Its \<open>success\<close> is false in two cases only:
  no notebook has the name and \<open>create_notebook\<close> answered false (\<open>error\<close> is then
  "Could not create notebook"), or an exception was raised before the loop and
  caught by the \<^verbatim>\<open>except\<close> of \<open>upload_sources\<close> (\<open>error\<close> is then its text). In
  both cases no request has been handled. The only other answer \<open>upload_sources\<close>
  returns is the one it gives at once when the state file is absent, before the
  dictionary \<^verbatim>\<open>results\<close> is made and before any run.
\<close>

theorem success_unless_creation_fails_or_exception:
  "(upload_sources lower cap name sources headless t0 = (Inr (Payload r), t') \<longrightarrow>
      (\<forall>tb. open_notebook lower cap name
                    (t0 @ [Start, Launch headless, NewContext STATE_PATH, NewPage]) = (Inr True, tb) \<longrightarrow>
               success r \<and> error r = None
             \<and> r = fst (add_each_source cap sources (initial_results name) tb)
             \<and> length (uploaded r) + length (failed r) = length sources)
          \<and> (\<forall>tb. open_notebook lower cap name
                    (t0 @ [Start, Launch headless, NewContext STATE_PATH, NewPage]) = (Inr False, tb) \<longrightarrow>
               \<not> success r \<and> error r = Some ''Could not create notebook''
             \<and> uploaded r = [] \<and> failed r = []
             \<and> (\<exists>nbs t1. get_notebooks cap
                    (t0 @ [Start, Launch headless, NewContext STATE_PATH, NewPage,
                           Goto NOTEBOOKLM_URL, WaitForLoadState ''networkidle'', Sleep 2000]) =
                    (Inr nbs, t1)
                  \<and> find (\<lambda>n. lower (title n) = lower name) nbs = None
                  \<and> create_notebook cap name t1 = (False, tb)))
          \<and> (\<forall>e tb. open_notebook lower cap name
                    (t0 @ [Start, Launch headless, NewContext STATE_PATH, NewPage]) = (Inl e, tb) \<longrightarrow>
               \<not> success r \<and> error r = Some (str e) \<and> uploaded r = [] \<and> failed r = [])
          \<and> (success r \<longleftrightarrow>
               (\<exists>tb. open_notebook lower cap name
                    (t0 @ [Start, Launch headless, NewContext STATE_PATH, NewPage]) = (Inr True, tb))))
   \<and> (upload_sources lower cap name sources headless t0 = (Inr (Error_only msg), tn) \<longrightarrow>
      \<not> path_exists cap t0 STATE_PATH
      \<and> msg = ''Not authenticated. Run authentication first.'' \<and> tn = t0)"
  using upload_sources_flag [of lower cap name sources headless t0 r t']
    upload_sources_error_only [of lower cap name sources headless t0 msg tn]
  by blast

theorem success_unless_creation_fails_or_exception_witness:
  "fst (add_each_source demo
      [\<lparr>src_type = Some ''pdf'', src_value = Some ''notes.pdf''\<rparr>,
       \<lparr>src_type = Some ''file'', src_value = Some ''/tmp/missing.pdf''\<rparr>]
      (initial_results ''my notes'') demo_opened) =
     \<lparr>success = True, notebook = ''my notes'', uploaded = [],
      failed = [(''notes.pdf'', ''Unknown source type: pdf''),
                (''/tmp/missing.pdf'', ''File not found: /tmp/missing.pdf'')],
      error = None\<rparr>"
proof -
  let ?srcs = "[\<lparr>src_type = Some ''pdf'', src_value = Some ''notes.pdf''\<rparr>,
       \<lparr>src_type = Some ''file'', src_value = Some ''/tmp/missing.pdf''\<rparr>]"
  let ?r = "\<lparr>success = True, notebook = ''my notes'', uploaded = [],
      failed = [(''notes.pdf'', ''Unknown source type: pdf''),
                (''/tmp/missing.pdf'', ''File not found: /tmp/missing.pdf'')],
      error = None\<rparr>"
  have "fst (upload_sources ascii_lower demo ''my notes'' ?srcs True []) = Inr (Payload ?r)"
    by code_simp
  then have h1: "upload_sources ascii_lower demo ''my notes'' ?srcs True [] =
      (Inr (Payload ?r), snd (upload_sources ascii_lower demo ''my notes'' ?srcs True []))"
    by (metis prod.collapse)
  have h2: "open_notebook ascii_lower demo ''my notes''
      ([] @ [Start, Launch True, NewContext STATE_PATH, NewPage]) = (Inr True, demo_opened)"
    by code_simp
  have "?r = fst (add_each_source demo ?srcs (initial_results ''my notes'') demo_opened)"
    by (rule success_unless_creation_fails_or_exception [THEN conjunct1, THEN mp, OF h1,
          THEN conjunct1, THEN spec, THEN mp, OF h2, THEN conjunct2, THEN conjunct2,
          THEN conjunct1])
  then show ?thesis by simp
qed

subsection \<open>Finding the notebook\<close>

lemma create_notebook_begins:
  \<open>\<exists>rest. snd (create_notebook cap name t) =
            t @ QuerySelector ''button:has-text("Create new")'' # rest\<close>
  unfolding create_notebook_def create_steps_def create_button_def locate_def
  by (auto simp: seq_def query_def perform_def sleep_def ret_def name_input_def
        split: prod.splits sum.splits option.splits)

lemma open_notebook_resolve:
  assumes "does cap ts (Goto NOTEBOOKLM_URL) = Inr ()"
    and "does cap (ts @ [Goto NOTEBOOKLM_URL]) (WaitForLoadState ''networkidle'') = Inr ()"
  shows "open_notebook lower cap name ts =
           resolve_notebook lower cap name
             (ts @ [Goto NOTEBOOKLM_URL, WaitForLoadState ''networkidle'', Sleep 2000])"
  using assms by (simp add: open_notebook_def seq_def perform_def sleep_def)

text \<open>
  C6. Take the list of notebooks that \<open>get_notebooks\<close> returns to the resolver, and
  a requested name. A title matches when it equals the name once both are put in
  lower case (\<^verbatim>\<open>str.lower\<close>). When some title matches, the notebook chosen is the
  first one of the list whose title matches; the resolver clicks its card, waits, and
  answers true, and that click and that wait are all it does after listing: no
  lookup of the creation control, no creation. When no title matches, and only then,
  the resolver's answer and trace are those of \<open>create_notebook\<close>, which starts by
  looking for the creation control. This is the resolver \<open>upload_sources\<close> runs once
  the page is loaded.
\<close>

theorem resolver_selects_first_match:
  assumes "get_notebooks cap tr = (Inr notebooks, t1)"
  shows \<open>((\<exists>n\<in>set notebooks. lower (title n) = lower name) \<longrightarrow>
            (\<exists>i<length notebooks.
                lower (title (notebooks ! i)) = lower name
              \<and> (\<forall>j<i. lower (title (notebooks ! j)) \<noteq> lower name)
              \<and> resolve_notebook lower cap name tr =
                  (case does cap t1 (Click (element (notebooks ! i))) of
                     Inl e \<Rightarrow> (Inl e, t1 @ [Click (element (notebooks ! i))])
                   | Inr u \<Rightarrow> (Inr True, t1 @ [Click (element (notebooks ! i)), Sleep 2000]))))
       \<and> ((\<forall>n\<in>set notebooks. lower (title n) \<noteq> lower name) \<longrightarrow>
            resolve_notebook lower cap name tr =
              (Inr (fst (create_notebook cap name t1)), snd (create_notebook cap name t1))
          \<and> (\<exists>rest. snd (resolve_notebook lower cap name tr) =
                  t1 @ QuerySelector ''button:has-text("Create new")'' # rest))
       \<and> (does cap ts (Goto NOTEBOOKLM_URL) = Inr ()
          \<and> does cap (ts @ [Goto NOTEBOOKLM_URL]) (WaitForLoadState ''networkidle'') = Inr () \<longrightarrow>
            open_notebook lower cap name ts =
              resolve_notebook lower cap name
                (ts @ [Goto NOTEBOOKLM_URL, WaitForLoadState ''networkidle'', Sleep 2000]))\<close>
proof -
  let ?P = "\<lambda>n. lower (title n) = lower name"
  have found: "\<exists>i<length notebooks.
                lower (title (notebooks ! i)) = lower name
              \<and> (\<forall>j<i. lower (title (notebooks ! j)) \<noteq> lower name)
              \<and> resolve_notebook lower cap name tr =
                  (case does cap t1 (Click (element (notebooks ! i))) of
                     Inl e \<Rightarrow> (Inl e, t1 @ [Click (element (notebooks ! i))])
                   | Inr u \<Rightarrow> (Inr True, t1 @ [Click (element (notebooks ! i)), Sleep 2000]))"
    if "\<exists>n\<in>set notebooks. lower (title n) = lower name"
  proof -
    from that obtain target where f: "find ?P notebooks = Some target"
      by (cases "find ?P notebooks") (auto simp: find_None_iff)
    then obtain i where i: "i < length notebooks" "?P (notebooks ! i)" "target = notebooks ! i"
      "\<forall>j<i. \<not> ?P (notebooks ! j)"
      by (auto simp: find_Some_iff)
    have "resolve_notebook lower cap name tr =
            (case does cap t1 (Click (element target)) of
               Inl e \<Rightarrow> (Inl e, t1 @ [Click (element target)])
             | Inr u \<Rightarrow> (Inr True, t1 @ [Click (element target), Sleep 2000]))"
      using assms f
      by (simp add: resolve_notebook_def seq_def perform_def sleep_def ret_def split: sum.splits)
    then show ?thesis using i by blast
  qed
  have none: \<open>resolve_notebook lower cap name tr =
              (Inr (fst (create_notebook cap name t1)), snd (create_notebook cap name t1))
          \<and> (\<exists>rest. snd (resolve_notebook lower cap name tr) =
                  t1 @ QuerySelector ''button:has-text("Create new")'' # rest)\<close>
    if "\<forall>n\<in>set notebooks. lower (title n) \<noteq> lower name"
  proof -
    from that have f: "find ?P notebooks = None" by (simp add: find_None_iff)
    have r: "resolve_notebook lower cap name tr =
              (Inr (fst (create_notebook cap name t1)), snd (create_notebook cap name t1))"
      using assms f by (simp add: resolve_notebook_def seq_def lift_def split: prod.splits)
    then show ?thesis using create_notebook_begins [of cap name t1] by simp
  qed
  show ?thesis using found none open_notebook_resolve [of cap ts lower name] by blast
qed

theorem resolver_selects_first_match_witness:
  "resolve_notebook ascii_lower twins ''my notes'' [] =
     (Inr True, snd (get_notebooks twins []) @ [Click 1, Sleep 2000])"
proof -
  let ?nbs = "[\<lparr>title = ''Untitled'', element = 2\<rparr>, \<lparr>title = ''My Notes'', element = 1\<rparr>,
               \<lparr>title = ''MY NOTES'', element = 3\<rparr>]"
  have "fst (get_notebooks twins []) = Inr ?nbs" by code_simp
  then have h: "get_notebooks twins [] = (Inr ?nbs, snd (get_notebooks twins []))"
    by (metis prod.collapse)
  have l0: "ascii_lower ''Untitled'' \<noteq> ascii_lower ''my notes''" by code_simp
  have l1: "ascii_lower ''My Notes'' = ascii_lower ''my notes''" by code_simp
  have d: "does twins t (Click e) = Inr ()" for t e by (simp add: twins_def demo_def)
  obtain i where i: "i < length ?nbs"
      "ascii_lower (title (?nbs ! i)) = ascii_lower ''my notes''"
      "\<forall>j<i. ascii_lower (title (?nbs ! j)) \<noteq> ascii_lower ''my notes''"
      "resolve_notebook ascii_lower twins ''my notes'' [] =
         (case does twins (snd (get_notebooks twins [])) (Click (element (?nbs ! i))) of
            Inl e \<Rightarrow> (Inl e, snd (get_notebooks twins []) @ [Click (element (?nbs ! i))])
          | Inr u \<Rightarrow> (Inr True, snd (get_notebooks twins []) @ [Click (element (?nbs ! i)), Sleep 2000]))"
    using resolver_selects_first_match [OF h, of ascii_lower "''my notes''"] l1 by auto
  have "i = 1"
  proof (rule ccontr)
    assume n: "i \<noteq> 1"
    then have "i = 0 \<or> i = 2" using i(1) by auto
    then show False
    proof
      assume "i = 0" then show False using i(2) l0 by simp
    next
      assume "i = 2"
      moreover have "1 < i \<longrightarrow> ascii_lower (title (?nbs ! 1)) \<noteq> ascii_lower ''my notes''"
        using i(3) by blast
      ultimately show False using l1 by simp
    qed
  qed
  then show ?thesis using i(4) by (simp add: d)
qed

subsection \<open>Listing the notebooks\<close>

lemma title_of_cases:
  "title_of cap c t =
     (case finds cap t (CardQuerySelector c notebook_title) of
        Inl e \<Rightarrow> (Inl e, t @ [CardQuerySelector c notebook_title])
      | Inr None \<Rightarrow> (Inr ''Untitled'', t @ [CardQuerySelector c notebook_title])
      | Inr (Some title_el) \<Rightarrow>
          (reads cap (t @ [CardQuerySelector c notebook_title]) (InnerText title_el),
           t @ [CardQuerySelector c notebook_title, InnerText title_el]))"
  by (simp add: title_of_def seq_def query_def read_text_def ret_def
        split: sum.splits option.splits)






subsection \<open>Adding one source\<close>

lemma add_website_source_cases:
  "add_website_source cap url tr =
     (case add_source_button cap tr of
        (Inl e, t1) \<Rightarrow> (Not_added (str e), t1)
      | (Inr None, t1) \<Rightarrow> (Not_added ''Could not find Add Source button'', t1)
      | (Inr (Some b), t1) \<Rightarrow>
         (case does cap t1 (Click b) of
            Inl e \<Rightarrow> (Not_added (str e), t1 @ [Click b])
          | Inr _ \<Rightarrow>
             (case website_option cap (t1 @ [Click b, Sleep 1000]) of
                (Inl e, t2) \<Rightarrow> (Not_added (str e), t2)
              | (Inr None, t2) \<Rightarrow> (Not_added ''Could not find Website option'', t2)
              | (Inr (Some w), t2) \<Rightarrow>
                 (case does cap t2 (Click w) of
                    Inl e \<Rightarrow> (Not_added (str e), t2 @ [Click w])
                  | Inr _ \<Rightarrow>
                     (case url_input cap (t2 @ [Click w, Sleep 500]) of
                        (Inl e, t3) \<Rightarrow> (Not_added (str e), t3)
                      | (Inr None, t3) \<Rightarrow> (Not_added ''Could not find URL input'', t3)
                      | (Inr (Some u), t3) \<Rightarrow>
                         (case does cap t3 (Fill u url) of
                            Inl e \<Rightarrow> (Not_added (str e), t3 @ [Fill u url])
                          | Inr _ \<Rightarrow>
                             (case does cap (t3 @ [Fill u url]) (Press u ''Enter'') of
                                Inl e \<Rightarrow> (Not_added (str e), t3 @ [Fill u url, Press u ''Enter''])
                              | Inr _ \<Rightarrow>
                                 (Added_url url,
                                  t3 @ [Fill u url, Press u ''Enter'', Sleep 3000]))))))))"
  by (simp add: add_website_source_def website_steps_def absorb_def seq_def perform_def
        sleep_def ret_def split: prod.splits sum.splits option.splits)

lemma add_file_source_cases:
  "add_file_source cap p tr =
     (if \<not> path_exists cap tr p then (Not_added (''File not found: '' @ p), tr)
      else
       (case add_source_button cap tr of
          (Inl e, t1) \<Rightarrow> (Not_added (str e), t1)
        | (Inr None, t1) \<Rightarrow> (Not_added ''Could not find Add Source button'', t1)
        | (Inr (Some b), t1) \<Rightarrow>
           (case does cap t1 (Click b) of
              Inl e \<Rightarrow> (Not_added (str e), t1 @ [Click b])
            | Inr _ \<Rightarrow>
               (case upload_option cap (t1 @ [Click b, Sleep 1000]) of
                  (Inl e, t2) \<Rightarrow> (Not_added (str e), t2)
                | (Inr None, t2) \<Rightarrow>
                   (case file_input cap t2 of
                      (Inl e, t3) \<Rightarrow> (Not_added (str e), t3)
                    | (Inr None, t3) \<Rightarrow> (Not_added ''Could not find file input'', t3)
                    | (Inr (Some fi), t3) \<Rightarrow>
                       (case does cap t3 (SetInputFiles fi p) of
                          Inl e \<Rightarrow> (Not_added (str e), t3 @ [SetInputFiles fi p])
                        | Inr _ \<Rightarrow> (Added_file p, t3 @ [SetInputFiles fi p, Sleep 5000])))
                | (Inr (Some f), t2) \<Rightarrow>
                   (case does cap t2 (Click f) of
                      Inl e \<Rightarrow> (Not_added (str e), t2 @ [Click f])
                    | Inr _ \<Rightarrow>
                       (case file_input cap (t2 @ [Click f, Sleep 500]) of
                          (Inl e, t3) \<Rightarrow> (Not_added (str e), t3)
                        | (Inr None, t3) \<Rightarrow> (Not_added ''Could not find file input'', t3)
                        | (Inr (Some fi), t3) \<Rightarrow>
                           (case does cap t3 (SetInputFiles fi p) of
                              Inl e \<Rightarrow> (Not_added (str e), t3 @ [SetInputFiles fi p])
                            | Inr _ \<Rightarrow>
                               (Added_file p, t3 @ [SetInputFiles fi p, Sleep 5000]))))))))"
  by (auto simp: add_file_source_def file_steps_def file_ui_steps_def absorb_def seq_def
        perform_def sleep_def ret_def split: prod.splits sum.splits option.splits)

lemma locate_None:
  "locate cap sa sb t = (Inr None, t') \<longleftrightarrow>
     finds cap t (QuerySelector sa) = Inr None
   \<and> finds cap (t @ [QuerySelector sa]) (QuerySelector sb) = Inr None
   \<and> t' = t @ [QuerySelector sa, QuerySelector sb]"
  by (auto simp: locate_def seq_def query_def ret_def split: sum.splits option.splits)

text \<open>
  C4, as the code has it. A control is located when the lookup of its selector
  strategies, tried in order, answers an element; it cannot be located when every
  strategy answers none. In \<open>add_website_source\<close> the controls are the Add source
  button, the Website option and the URL input; the outcome is a success exactly
  when the three were located and the clicks, the fill and the key press on them
  returned, and each control that cannot be located gives the failure that names
  it. In \<open>add_file_source\<close>, once the file exists, the required controls are the
  Add source button and the file input, with the same two properties; the Upload
  option is looked up too, and clicked when located, but when it cannot be located
  the operation goes on to the file input without a failure. An exception raised by
  any step is caught: the outcome is then the failure carrying its text.
\<close>

theorem add_outcome_by_located_controls:
  "(add_source_button cap tr = (Inr None, ta) \<longrightarrow>
      add_website_source cap url tr = (Not_added ''Could not find Add Source button'', ta)
    \<and> (path_exists cap tr p \<longrightarrow>
         add_file_source cap p tr = (Not_added ''Could not find Add Source button'', ta)))
   \<and> (add_source_button cap tr = (Inr (Some b), ta) \<and> does cap ta (Click b) = Inr () \<longrightarrow>
        (website_option cap (ta @ [Click b, Sleep 1000]) = (Inr None, tc) \<longrightarrow>
           add_website_source cap url tr = (Not_added ''Could not find Website option'', tc))
      \<and> (website_option cap (ta @ [Click b, Sleep 1000]) = (Inr (Some w), tc)
         \<and> does cap tc (Click w) = Inr () \<longrightarrow>
           (url_input cap (tc @ [Click w, Sleep 500]) = (Inr None, td) \<longrightarrow>
              add_website_source cap url tr = (Not_added ''Could not find URL input'', td))
         \<and> (url_input cap (tc @ [Click w, Sleep 500]) = (Inr (Some u), td)
            \<and> does cap td (Fill u url) = Inr ()
            \<and> does cap (td @ [Fill u url]) (Press u ''Enter'') = Inr () \<longrightarrow>
              add_website_source cap url tr =
                (Added_url url, td @ [Fill u url, Press u ''Enter'', Sleep 3000]))))
   \<and> (is_added (fst (add_website_source cap url tr)) \<longrightarrow>
        (\<exists>b ta w tc u td.
            add_source_button cap tr = (Inr (Some b), ta) \<and> does cap ta (Click b) = Inr ()
          \<and> website_option cap (ta @ [Click b, Sleep 1000]) = (Inr (Some w), tc)
          \<and> does cap tc (Click w) = Inr ()
          \<and> url_input cap (tc @ [Click w, Sleep 500]) = (Inr (Some u), td)
          \<and> does cap td (Fill u url) = Inr ()
          \<and> does cap (td @ [Fill u url]) (Press u ''Enter'') = Inr ()))
   \<and> (path_exists cap tr p
      \<and> add_source_button cap tr = (Inr (Some b), ta) \<and> does cap ta (Click b) = Inr ()
      \<and> upload_option cap (ta @ [Click b, Sleep 1000]) = (Inr opt, tc)
      \<and> (\<forall>f. opt = Some f \<longrightarrow> does cap tc (Click f) = Inr ()) \<longrightarrow>
        (file_input cap (tc @ (case opt of None \<Rightarrow> [] | Some f \<Rightarrow> [Click f, Sleep 500])) =
           (Inr None, td) \<longrightarrow>
           add_file_source cap p tr = (Not_added ''Could not find file input'', td))
      \<and> (file_input cap (tc @ (case opt of None \<Rightarrow> [] | Some f \<Rightarrow> [Click f, Sleep 500])) =
           (Inr (Some fi), td)
         \<and> does cap td (SetInputFiles fi p) = Inr () \<longrightarrow>
           add_file_source cap p tr = (Added_file p, td @ [SetInputFiles fi p, Sleep 5000])))
   \<and> (is_added (fst (add_file_source cap p tr)) \<longrightarrow>
        path_exists cap tr p
      \<and> (\<exists>b ta opt tc fi td.
            add_source_button cap tr = (Inr (Some b), ta) \<and> does cap ta (Click b) = Inr ()
          \<and> upload_option cap (ta @ [Click b, Sleep 1000]) = (Inr opt, tc)
          \<and> (\<forall>f. opt = Some f \<longrightarrow> does cap tc (Click f) = Inr ())
          \<and> file_input cap (tc @ (case opt of None \<Rightarrow> [] | Some f \<Rightarrow> [Click f, Sleep 500])) =
              (Inr (Some fi), td)
          \<and> does cap td (SetInputFiles fi p) = Inr ()))
   \<and> (fst (website_steps cap url tr) = Inl x \<longrightarrow>
        fst (add_website_source cap url tr) = Not_added (str x))
   \<and> (fst (file_steps cap p tr) = Inl x \<longrightarrow>
        fst (add_file_source cap p tr) = Not_added (str x))
   \<and> (locate cap sa sb tr = (Inr None, ta) \<longleftrightarrow>
        finds cap tr (QuerySelector sa) = Inr None
      \<and> finds cap (tr @ [QuerySelector sa]) (QuerySelector sb) = Inr None
      \<and> ta = tr @ [QuerySelector sa, QuerySelector sb])"
proof -
  have w1: "add_source_button cap tr = (Inr None, ta) \<longrightarrow>
      add_website_source cap url tr = (Not_added ''Could not find Add Source button'', ta)
    \<and> (path_exists cap tr p \<longrightarrow>
         add_file_source cap p tr = (Not_added ''Could not find Add Source button'', ta))"
    by (simp add: add_website_source_cases add_file_source_cases)
  have w2: "add_source_button cap tr = (Inr (Some b), ta) \<and> does cap ta (Click b) = Inr () \<longrightarrow>
        (website_option cap (ta @ [Click b, Sleep 1000]) = (Inr None, tc) \<longrightarrow>
           add_website_source cap url tr = (Not_added ''Could not find Website option'', tc))
      \<and> (website_option cap (ta @ [Click b, Sleep 1000]) = (Inr (Some w), tc)
         \<and> does cap tc (Click w) = Inr () \<longrightarrow>
           (url_input cap (tc @ [Click w, Sleep 500]) = (Inr None, td) \<longrightarrow>
              add_website_source cap url tr = (Not_added ''Could not find URL input'', td))
         \<and> (url_input cap (tc @ [Click w, Sleep 500]) = (Inr (Some u), td)
            \<and> does cap td (Fill u url) = Inr ()
            \<and> does cap (td @ [Fill u url]) (Press u ''Enter'') = Inr () \<longrightarrow>
              add_website_source cap url tr =
                (Added_url url, td @ [Fill u url, Press u ''Enter'', Sleep 3000])))"
    by (simp add: add_website_source_cases)
  have w3: "is_added (fst (add_website_source cap url tr)) \<longrightarrow>
        (\<exists>b ta w tc u td.
            add_source_button cap tr = (Inr (Some b), ta) \<and> does cap ta (Click b) = Inr ()
          \<and> website_option cap (ta @ [Click b, Sleep 1000]) = (Inr (Some w), tc)
          \<and> does cap tc (Click w) = Inr ()
          \<and> url_input cap (tc @ [Click w, Sleep 500]) = (Inr (Some u), td)
          \<and> does cap td (Fill u url) = Inr ()
          \<and> does cap (td @ [Fill u url]) (Press u ''Enter'') = Inr ())"
    by (auto simp: add_website_source_cases split: prod.splits sum.splits option.splits)
  have f1: "path_exists cap tr p
      \<and> add_source_button cap tr = (Inr (Some b), ta) \<and> does cap ta (Click b) = Inr ()
      \<and> upload_option cap (ta @ [Click b, Sleep 1000]) = (Inr opt, tc)
      \<and> (\<forall>f. opt = Some f \<longrightarrow> does cap tc (Click f) = Inr ()) \<longrightarrow>
        (file_input cap (tc @ (case opt of None \<Rightarrow> [] | Some f \<Rightarrow> [Click f, Sleep 500])) =
           (Inr None, td) \<longrightarrow>
           add_file_source cap p tr = (Not_added ''Could not find file input'', td))
      \<and> (file_input cap (tc @ (case opt of None \<Rightarrow> [] | Some f \<Rightarrow> [Click f, Sleep 500])) =
           (Inr (Some fi), td)
         \<and> does cap td (SetInputFiles fi p) = Inr () \<longrightarrow>
           add_file_source cap p tr = (Added_file p, td @ [SetInputFiles fi p, Sleep 5000]))"
    by (cases opt) (simp_all add: add_file_source_cases)
  have f2: "is_added (fst (add_file_source cap p tr)) \<longrightarrow>
        path_exists cap tr p
      \<and> (\<exists>b ta opt tc fi td.
            add_source_button cap tr = (Inr (Some b), ta) \<and> does cap ta (Click b) = Inr ()
          \<and> upload_option cap (ta @ [Click b, Sleep 1000]) = (Inr opt, tc)
          \<and> (\<forall>f. opt = Some f \<longrightarrow> does cap tc (Click f) = Inr ())
          \<and> file_input cap (tc @ (case opt of None \<Rightarrow> [] | Some f \<Rightarrow> [Click f, Sleep 500])) =
              (Inr (Some fi), td)
          \<and> does cap td (SetInputFiles fi p) = Inr ())"
  proof (intro impI)
    assume a: "is_added (fst (add_file_source cap p tr))"
    then have pe: "path_exists cap tr p" by (auto simp: add_file_source_cases split: if_splits)
    obtain x1 ta where sa: "add_source_button cap tr = (x1, ta)" by (metis prod.collapse)
    then obtain b where b: "x1 = Inr (Some b)" and cb: "does cap ta (Click b) = Inr ()"
      using a pe by (auto simp: add_file_source_cases split: sum.splits option.splits)
    obtain x2 tc where sb: "upload_option cap (ta @ [Click b, Sleep 1000]) = (x2, tc)"
      by (metis prod.collapse)
    then obtain opt where opt: "x2 = Inr opt"
      using a pe sa b cb by (cases x2) (auto simp: add_file_source_cases)
    let ?t = "tc @ (case opt of None \<Rightarrow> [] | Some f \<Rightarrow> [Click f, Sleep 500])"
    have cf: "\<forall>f. opt = Some f \<longrightarrow> does cap tc (Click f) = Inr ()"
      using a pe sa b cb sb opt by (auto simp: add_file_source_cases split: sum.splits)
    obtain x3 td where s3: "file_input cap ?t = (x3, td)" by (metis prod.collapse)
    then have "\<exists>fi. x3 = Inr (Some fi) \<and> does cap td (SetInputFiles fi p) = Inr ()"
      using a pe sa b cb sb opt cf
      by (cases opt) (auto simp: add_file_source_cases split: sum.splits option.splits)
    then show "path_exists cap tr p
      \<and> (\<exists>b ta opt tc fi td.
            add_source_button cap tr = (Inr (Some b), ta) \<and> does cap ta (Click b) = Inr ()
          \<and> upload_option cap (ta @ [Click b, Sleep 1000]) = (Inr opt, tc)
          \<and> (\<forall>f. opt = Some f \<longrightarrow> does cap tc (Click f) = Inr ())
          \<and> file_input cap (tc @ (case opt of None \<Rightarrow> [] | Some f \<Rightarrow> [Click f, Sleep 500])) =
              (Inr (Some fi), td)
          \<and> does cap td (SetInputFiles fi p) = Inr ())"
      using pe sa b cb sb opt cf s3 by blast
  qed
  have x1: "fst (website_steps cap url tr) = Inl x \<longrightarrow>
        fst (add_website_source cap url tr) = Not_added (str x)"
    by (auto simp: add_website_source_def absorb_def split: prod.splits sum.splits)
  have x2: "fst (file_steps cap p tr) = Inl x \<longrightarrow>
        fst (add_file_source cap p tr) = Not_added (str x)"
    by (auto simp: add_file_source_def absorb_def split: prod.splits sum.splits)
  show ?thesis using w1 w2 w3 f1 f2 x1 x2 locate_None [of cap sa sb tr ta] by blast
qed

theorem add_outcome_by_located_controls_witness:
  \<open>add_website_source quiet ''https://example.org'' [] =
     (Not_added ''Could not find Add Source button'',
      [QuerySelector ''button:has-text("Add source")'',
       QuerySelector ''[data-test-id="add-source-button"]''])
   \<and> add_website_source demo ''https://example.org'' [] =
     (Added_url ''https://example.org'',
      [QuerySelector ''button:has-text("Add source")'', Click 20, Sleep 1000,
       QuerySelector ''button:has-text("Website")'', Click 21, Sleep 500,
       QuerySelector ''input[type="url"], input[placeholder*="URL"]'',
       Fill 22 ''https://example.org'', Press 22 ''Enter'', Sleep 3000])
   \<and> add_file_source demo ''/tmp/notes.pdf'' [] =
     (Added_file ''/tmp/notes.pdf'',
      [QuerySelector ''button:has-text("Add source")'', Click 20, Sleep 1000,
       QuerySelector ''button:has-text("Upload")'',
       QuerySelector ''[data-test-id="source-type-upload"]'',
       QuerySelector ''input[type="file"]'',
       SetInputFiles 23 ''/tmp/notes.pdf'', Sleep 5000])\<close>
proof -
  let ?q = \<open>[QuerySelector ''button:has-text("Add source")'',
             QuerySelector ''[data-test-id="add-source-button"]'']\<close>
  let ?t1 = \<open>[QuerySelector ''button:has-text("Add source")'']\<close>
  let ?t2 = \<open>[QuerySelector ''button:has-text("Add source")'', Click 20, Sleep 1000,
              QuerySelector ''button:has-text("Website")'']\<close>
  let ?t3 = \<open>[QuerySelector ''button:has-text("Add source")'', Click 20, Sleep 1000,
              QuerySelector ''button:has-text("Website")'', Click 21, Sleep 500,
              QuerySelector ''input[type="url"], input[placeholder*="URL"]'']\<close>
  let ?u2 = \<open>[QuerySelector ''button:has-text("Add source")'', Click 20, Sleep 1000,
              QuerySelector ''button:has-text("Upload")'',
              QuerySelector ''[data-test-id="source-type-upload"]'']\<close>
  let ?u3 = \<open>[QuerySelector ''button:has-text("Add source")'', Click 20, Sleep 1000,
              QuerySelector ''button:has-text("Upload")'',
              QuerySelector ''[data-test-id="source-type-upload"]'',
              QuerySelector ''input[type="file"]'']\<close>
  have q: "add_source_button quiet [] = (Inr None, ?q)" by code_simp
  note quiet_run = add_outcome_by_located_controls [where cap = quiet and tr = "[]" and ta = ?q
      and url = "''https://example.org''"]
  have p1: "add_website_source quiet ''https://example.org'' [] =
              (Not_added ''Could not find Add Source button'', ?q)"
    by (rule quiet_run [THEN conjunct1, THEN mp, OF q, THEN conjunct1])
  have d: "does demo t ev = Inr ()" for t ev by (simp add: demo_def)
  have a1: "add_source_button demo [] = (Inr (Some 20), ?t1)" by code_simp
  have a2: "website_option demo (?t1 @ [Click 20, Sleep 1000]) = (Inr (Some 21), ?t2)"
    by code_simp
  have a3: "url_input demo (?t2 @ [Click 21, Sleep 500]) = (Inr (Some 22), ?t3)"
    by code_simp
  note web_run = add_outcome_by_located_controls [where cap = demo and tr = "[]" and ta = ?t1
      and b = 20 and tc = ?t2 and w = 21 and td = ?t3 and u = 22
      and url = "''https://example.org''"]
  have "add_website_source demo ''https://example.org'' [] =
          (Added_url ''https://example.org'',
           ?t3 @ [Fill 22 ''https://example.org'', Press 22 ''Enter'', Sleep 3000])"
    by (rule web_run [THEN conjunct2, THEN conjunct1, THEN mp, OF conjI [OF a1 d],
          THEN conjunct2, THEN mp, OF conjI [OF a2 d],
          THEN conjunct2, THEN mp, OF conjI [OF a3 conjI [OF d d]]])
  then have p2: \<open>add_website_source demo ''https://example.org'' [] =
          (Added_url ''https://example.org'',
           [QuerySelector ''button:has-text("Add source")'', Click 20, Sleep 1000,
            QuerySelector ''button:has-text("Website")'', Click 21, Sleep 500,
            QuerySelector ''input[type="url"], input[placeholder*="URL"]'',
            Fill 22 ''https://example.org'', Press 22 ''Enter'', Sleep 3000])\<close>
    by (simp only: append.simps)
  have e: "path_exists demo [] ''/tmp/notes.pdf''" by (simp add: demo_def)
  have b2: "upload_option demo (?t1 @ [Click 20, Sleep 1000]) = (Inr None, ?u2)"
    by code_simp
  have b3: "file_input demo (?u2 @ (case None of None \<Rightarrow> [] | Some f \<Rightarrow> [Click f, Sleep 500])) =
              (Inr (Some 23), ?u3)"
    by code_simp
  have nf: "\<forall>f. (None :: elem option) = Some f \<longrightarrow> does demo ?u2 (Click f) = Inr ()"
    by simp
  note file_run = add_outcome_by_located_controls [where cap = demo and tr = "[]" and ta = ?t1
      and b = 20 and tc = ?u2 and opt = None and td = ?u3 and fi = 23
      and p = "''/tmp/notes.pdf''"]
  have "add_file_source demo ''/tmp/notes.pdf'' [] =
          (Added_file ''/tmp/notes.pdf'', ?u3 @ [SetInputFiles 23 ''/tmp/notes.pdf'', Sleep 5000])"
    by (rule file_run [THEN conjunct2, THEN conjunct2, THEN conjunct2, THEN conjunct1, THEN mp,
          OF conjI [OF e conjI [OF a1 conjI [OF d conjI [OF b2 nf]]]],
          THEN conjunct2, THEN mp, OF conjI [OF b3 d]])
  then have p3: \<open>add_file_source demo ''/tmp/notes.pdf'' [] =
          (Added_file ''/tmp/notes.pdf'',
           [QuerySelector ''button:has-text("Add source")'', Click 20, Sleep 1000,
            QuerySelector ''button:has-text("Upload")'',
            QuerySelector ''[data-test-id="source-type-upload"]'',
            QuerySelector ''input[type="file"]'',
            SetInputFiles 23 ''/tmp/notes.pdf'', Sleep 5000])\<close>
    by (simp only: append.simps)
  show ?thesis by (rule conjI [OF p1 conjI [OF p2 p3]])
qed

text \<open>
  The claim as stated makes the location of every control a condition of success,
  and the absence of any of them a failure that names it. On \<open>demo\<close> neither
  strategy locates the Upload option, and the file is added all the same.
\<close>

theorem upload_option_not_required_counterexample:
  \<open>upload_option demo [QuerySelector ''button:has-text("Add source")'', Click 20, Sleep 1000] =
     (Inr None,
      [QuerySelector ''button:has-text("Add source")'', Click 20, Sleep 1000,
       QuerySelector ''button:has-text("Upload")'',
       QuerySelector ''[data-test-id="source-type-upload"]''])
   \<and> add_file_source demo ''/tmp/notes.pdf'' [] =
     (Added_file ''/tmp/notes.pdf'',
      [QuerySelector ''button:has-text("Add source")'', Click 20, Sleep 1000,
       QuerySelector ''button:has-text("Upload")'',
       QuerySelector ''[data-test-id="source-type-upload"]'',
       QuerySelector ''input[type="file"]'',
       SetInputFiles 23 ''/tmp/notes.pdf'', Sleep 5000])\<close>
  by code_simp

subsection \<open>Leaving the browser session\<close>

lemma title_of_adds:
  "\<exists>new. snd (title_of cap c t) = t @ new \<and> (\<forall>p. StorageState p \<notin> set new)"
  by (auto simp: title_of_cases split: sum.splits option.splits)

lemma card_loop_adds:
  "\<exists>new. snd (card_loop cap cards acc t) = t @ new \<and> (\<forall>p. StorageState p \<notin> set new)"
proof (induction cards arbitrary: acc t)
  case Nil
  then show ?case by simp
next
  case (Cons c cards)
  obtain a t1 where st: "title_of cap c t = (a, t1)" by (cases "title_of cap c t")
  obtain n1 where n1: "t1 = t @ n1" "\<forall>p. StorageState p \<notin> set n1"
    using title_of_adds [of cap c t] st by auto
  show ?case
  proof (cases a)
    case (Inl e)
    then show ?thesis using st n1 by simp
  next
    case (Inr ti)
    obtain n2 where n2: "snd (card_loop cap cards (acc @ [\<lparr>title = ti, element = c\<rparr>]) t1) = t1 @ n2"
      "\<forall>p. StorageState p \<notin> set n2"
      using Cons [of "acc @ [\<lparr>title = ti, element = c\<rparr>]" t1] by blast
    have "snd (card_loop cap (c # cards) acc t) = t @ (n1 @ n2)"
      using st Inr n1(1) n2(1) by simp
    moreover have "\<forall>p. StorageState p \<notin> set (n1 @ n2)" using n1(2) n2(2) by simp
    ultimately show ?thesis by blast
  qed
qed

lemma except_timeout_trace: "snd (except_timeout e nbs t) = t"
  by (cases e) simp_all

lemma get_notebooks_adds:
  "\<exists>new. snd (get_notebooks cap t) = t @ new \<and> (\<forall>p. StorageState p \<notin> set new)"
proof (cases "does cap t (WaitForSelector notebook_card 10000)")
  case (Inl e)
  then have "snd (get_notebooks cap t) = t @ [WaitForSelector notebook_card 10000]"
    by (simp add: get_notebooks_def perform_def except_timeout_trace)
  then show ?thesis by simp
next
  case (Inr u)
  let ?t1 = "t @ [WaitForSelector notebook_card 10000]"
  show ?thesis
  proof (cases "finds_all cap ?t1 (QuerySelectorAll notebook_card)")
    case (Inl e)
    then have "snd (get_notebooks cap t) =
        t @ [WaitForSelector notebook_card 10000, QuerySelectorAll notebook_card]"
      using Inr by (simp add: get_notebooks_def perform_def query_all_def except_timeout_trace)
    then show ?thesis by simp
  next
    case cards: (Inr cards)
    let ?t2 = "t @ [WaitForSelector notebook_card 10000, QuerySelectorAll notebook_card]"
    obtain n where n: "snd (card_loop cap cards [] ?t2) = ?t2 @ n" "\<forall>p. StorageState p \<notin> set n"
      using card_loop_adds [of cap cards "[]" ?t2] by blast
    have "snd (get_notebooks cap t) = snd (card_loop cap cards [] ?t2)"
      using Inr cards
      by (auto simp: get_notebooks_def perform_def query_all_def except_timeout_trace
            split: prod.splits option.splits)
    then have "snd (get_notebooks cap t) =
        t @ ([WaitForSelector notebook_card 10000, QuerySelectorAll notebook_card] @ n)"
      using n(1) by simp
    moreover have "\<forall>p. StorageState p \<notin>
        set ([WaitForSelector notebook_card 10000, QuerySelectorAll notebook_card] @ n)"
      using n(2) by simp
    ultimately show ?thesis by blast
  qed
qed

lemma list_body_adds:
  "\<exists>new. snd (try_except (list_body cap) (\<lambda>e. ret (Error_only (str e))) t) = t @ new
         \<and> (\<forall>p. StorageState p \<notin> set new)"
proof (cases "does cap t (Goto NOTEBOOKLM_URL)")
  case (Inl e)
  then have "snd (try_except (list_body cap) (\<lambda>e. ret (Error_only (str e))) t) =
      t @ [Goto NOTEBOOKLM_URL]"
    by (simp add: list_body_def try_except_def seq_def perform_def ret_def)
  then show ?thesis by simp
next
  case (Inr u)
  show ?thesis
  proof (cases "does cap (t @ [Goto NOTEBOOKLM_URL]) (WaitForLoadState ''networkidle'')")
    case (Inl e)
    then have "snd (try_except (list_body cap) (\<lambda>e. ret (Error_only (str e))) t) =
        t @ [Goto NOTEBOOKLM_URL, WaitForLoadState ''networkidle'']"
      using Inr by (simp add: list_body_def try_except_def seq_def perform_def ret_def)
    then show ?thesis by simp
  next
    case w: (Inr v)
    let ?t3 = "t @ [Goto NOTEBOOKLM_URL, WaitForLoadState ''networkidle'', Sleep 3000]"
    obtain n where n: "snd (get_notebooks cap ?t3) = ?t3 @ n" "\<forall>p. StorageState p \<notin> set n"
      using get_notebooks_adds [of cap ?t3] by blast
    have "snd (try_except (list_body cap) (\<lambda>e. ret (Error_only (str e))) t) =
        snd (get_notebooks cap ?t3)"
      using Inr w
      by (auto simp: list_body_def try_except_def seq_def perform_def sleep_def ret_def
            split: prod.splits sum.splits)
    then have "snd (try_except (list_body cap) (\<lambda>e. ret (Error_only (str e))) t) =
        t @ ([Goto NOTEBOOKLM_URL, WaitForLoadState ''networkidle'', Sleep 3000] @ n)"
      using n(1) by simp
    moreover have "\<forall>p. StorageState p \<notin>
        set ([Goto NOTEBOOKLM_URL, WaitForLoadState ''networkidle'', Sleep 3000] @ n)"
      using n(2) by simp
    ultimately show ?thesis by blast
  qed
qed

lemma list_notebooks_returns:
  assumes "list_notebooks cap headless t0 = (Inr rep, t')" and "path_exists cap t0 STATE_PATH"
  shows "\<exists>t1. try_except (list_body cap) (\<lambda>e. ret (Error_only (str e)))
                 (t0 @ [Start, Launch headless, NewContext STATE_PATH, NewPage]) = (Inr rep, t1)
             \<and> t' = t1 @ [Close, Stop]"
  using assms
  by (auto simp: list_notebooks_def seq_def perform_def try_finally_def with_playwright_def
        try_except_def ret_def split: prod.splits sum.splits if_splits)

text \<open>
  C2, as the code has it. In \<open>upload_sources\<close> the \<^verbatim>\<open>finally\<close> writes the session
  state back to the state file and then closes the browser. So whenever
  \<open>upload_sources\<close> returns a result after opening the browser, whether the body of
  the \<^verbatim>\<open>try\<close> returned or raised an exception (which the \<^verbatim>\<open>except\<close> turns into the
  result), the trace of the run ends with the write of the state, the close and
  the stop of the driver, right after the last step of the operation; and a result is
  returned as soon as those calls and the opening of the browser raise nothing. In
  \<open>list_notebooks\<close> the \<^verbatim>\<open>finally\<close> only closes the browser: whenever it returns a
  result after opening the browser, the trace ends with the close and the stop of the
  driver, and the run has not written the session state at all.
\<close>

theorem state_saved_and_browser_closed:
  "(upload_sources lower cap name sources headless t0 = (Inr (Payload r), t') \<longrightarrow>
       (\<exists>t1. guarded_upload lower cap name sources (initial_results name)
                (t0 @ [Start, Launch headless, NewContext STATE_PATH, NewPage]) = (Inr r, t1)
            \<and> t' = t1 @ [StorageState STATE_PATH, Close, Stop])
     \<and> (\<forall>r0 tb. upload_body lower cap name sources (initial_results name)
                (t0 @ [Start, Launch headless, NewContext STATE_PATH, NewPage]) = (Inr r0, tb) \<longrightarrow>
            r = r0 \<and> t' = tb @ [StorageState STATE_PATH, Close, Stop])
     \<and> (\<forall>e tb. upload_body lower cap name sources (initial_results name)
                (t0 @ [Start, Launch headless, NewContext STATE_PATH, NewPage]) = (Inl e, tb) \<longrightarrow>
            r = (initial_results name)\<lparr>success := False, error := Some (str e)\<rparr>
          \<and> t' = tb @ [StorageState STATE_PATH, Close, Stop]))
   \<and> (path_exists cap t0 STATE_PATH
      \<and> does cap t0 Start = Inr ()
      \<and> does cap (t0 @ [Start]) (Launch headless) = Inr ()
      \<and> does cap (t0 @ [Start, Launch headless]) (NewContext STATE_PATH) = Inr ()
      \<and> does cap (t0 @ [Start, Launch headless, NewContext STATE_PATH]) NewPage = Inr ()
      \<and> guarded_upload lower cap name sources (initial_results name)
           (t0 @ [Start, Launch headless, NewContext STATE_PATH, NewPage]) = (Inr r, tc)
      \<and> does cap tc (StorageState STATE_PATH) = Inr ()
      \<and> does cap (tc @ [StorageState STATE_PATH]) Close = Inr ()
      \<and> does cap (tc @ [StorageState STATE_PATH, Close]) Stop = Inr () \<longrightarrow>
        upload_sources lower cap name sources headless t0 =
          (Inr (Payload r), tc @ [StorageState STATE_PATH, Close, Stop]))
   \<and> (\<exists>r1 t1. guarded_upload lower cap name sources (initial_results name)
                (t0 @ [Start, Launch headless, NewContext STATE_PATH, NewPage]) = (Inr r1, t1))
   \<and> (list_notebooks cap headless t0 = (Inr rep, tl') \<and> path_exists cap t0 STATE_PATH \<longrightarrow>
       (\<exists>t1. try_except (list_body cap) (\<lambda>e. ret (Error_only (str e)))
                (t0 @ [Start, Launch headless, NewContext STATE_PATH, NewPage]) = (Inr rep, t1)
            \<and> tl' = t1 @ [Close, Stop])
     \<and> (\<forall>p. StorageState p \<notin> set (drop (length t0) tl')))"
proof -
  let ?ts = "t0 @ [Start, Launch headless, NewContext STATE_PATH, NewPage]"
  have up: "(\<exists>t1. guarded_upload lower cap name sources (initial_results name) ?ts = (Inr r, t1)
            \<and> t' = t1 @ [StorageState STATE_PATH, Close, Stop])
     \<and> (\<forall>r0 tb. upload_body lower cap name sources (initial_results name) ?ts = (Inr r0, tb) \<longrightarrow>
            r = r0 \<and> t' = tb @ [StorageState STATE_PATH, Close, Stop])
     \<and> (\<forall>e tb. upload_body lower cap name sources (initial_results name) ?ts = (Inl e, tb) \<longrightarrow>
            r = (initial_results name)\<lparr>success := False, error := Some (str e)\<rparr>
          \<and> t' = tb @ [StorageState STATE_PATH, Close, Stop])"
    if h: "upload_sources lower cap name sources headless t0 = (Inr (Payload r), t')"
  proof -
    obtain t1 where g: "guarded_upload lower cap name sources (initial_results name) ?ts = (Inr r, t1)"
      and t: "t' = t1 @ [StorageState STATE_PATH, Close, Stop]"
      using upload_sources_returns [OF h] by blast
    have a: "\<forall>r0 tb. upload_body lower cap name sources (initial_results name) ?ts = (Inr r0, tb) \<longrightarrow>
            r = r0 \<and> t' = tb @ [StorageState STATE_PATH, Close, Stop]"
      using g t by (auto simp: guarded_upload_def try_except_def)
    have b: "\<forall>e tb. upload_body lower cap name sources (initial_results name) ?ts = (Inl e, tb) \<longrightarrow>
            r = (initial_results name)\<lparr>success := False, error := Some (str e)\<rparr>
          \<and> t' = tb @ [StorageState STATE_PATH, Close, Stop]"
      using g t by (auto simp: guarded_upload_def try_except_def)
    show ?thesis using g t a b by blast
  qed
  have ret: "path_exists cap t0 STATE_PATH
      \<and> does cap t0 Start = Inr ()
      \<and> does cap (t0 @ [Start]) (Launch headless) = Inr ()
      \<and> does cap (t0 @ [Start, Launch headless]) (NewContext STATE_PATH) = Inr ()
      \<and> does cap (t0 @ [Start, Launch headless, NewContext STATE_PATH]) NewPage = Inr ()
      \<and> guarded_upload lower cap name sources (initial_results name) ?ts = (Inr r, tc)
      \<and> does cap tc (StorageState STATE_PATH) = Inr ()
      \<and> does cap (tc @ [StorageState STATE_PATH]) Close = Inr ()
      \<and> does cap (tc @ [StorageState STATE_PATH, Close]) Stop = Inr () \<longrightarrow>
        upload_sources lower cap name sources headless t0 =
          (Inr (Payload r), tc @ [StorageState STATE_PATH, Close, Stop])"
    by (simp add: upload_sources_def seq_def perform_def try_finally_def with_playwright_def
          ret_def)
  have li: "(\<exists>t1. try_except (list_body cap) (\<lambda>e. ret (Error_only (str e))) ?ts = (Inr rep, t1)
            \<and> tl' = t1 @ [Close, Stop])
     \<and> (\<forall>p. StorageState p \<notin> set (drop (length t0) tl'))"
    if h: "list_notebooks cap headless t0 = (Inr rep, tl')" "path_exists cap t0 STATE_PATH"
  proof -
    obtain t1 where g: "try_except (list_body cap) (\<lambda>e. ret (Error_only (str e))) ?ts = (Inr rep, t1)"
      and t: "tl' = t1 @ [Close, Stop]"
      using list_notebooks_returns [OF h] by blast
    obtain n where n: "t1 = ?ts @ n" "\<forall>p. StorageState p \<notin> set n"
      using list_body_adds [of cap ?ts] g by auto
    have "drop (length t0) tl' =
        [Start, Launch headless, NewContext STATE_PATH, NewPage] @ n @ [Close, Stop]"
      using t n(1) by simp
    then have "\<forall>p. StorageState p \<notin> set (drop (length t0) tl')" using n(2) by simp
    then show ?thesis using g t by blast
  qed
  show ?thesis using up ret li guarded_upload_never_raises by blast
qed

theorem state_saved_and_browser_closed_witness:
  "snd (upload_sources ascii_lower demo ''my notes'' [] True []) =
     demo_opened @ [StorageState STATE_PATH, Close, Stop]
   \<and> (\<forall>p. StorageState p \<notin> set (snd (list_notebooks demo True [])))"
proof -
  let ?T = "snd (upload_sources ascii_lower demo ''my notes'' [] True [])"
  let ?rep = "Payload ([''My Notes'', ''Untitled''], 2 :: nat)"
  let ?TL = "snd (list_notebooks demo True [])"
  note run = state_saved_and_browser_closed
    [of ascii_lower demo "''my notes''" "[]" True "[]" "initial_results ''my notes''" ?T _ ?rep ?TL]
  have "fst (upload_sources ascii_lower demo ''my notes'' [] True []) =
          Inr (Payload (initial_results ''my notes''))"
    by code_simp
  then have h1: "upload_sources ascii_lower demo ''my notes'' [] True [] =
      (Inr (Payload (initial_results ''my notes'')), ?T)"
    by (metis prod.collapse)
  have hb: "upload_body ascii_lower demo ''my notes'' [] (initial_results ''my notes'')
      ([] @ [Start, Launch True, NewContext STATE_PATH, NewPage]) =
      (Inr (initial_results ''my notes''), demo_opened)"
    by code_simp
  have p1: "?T = demo_opened @ [StorageState STATE_PATH, Close, Stop]"
    by (rule run [THEN conjunct1, THEN mp, OF h1, THEN conjunct2, THEN conjunct1,
          THEN spec, THEN spec, THEN mp, OF hb, THEN conjunct2])
  have "fst (list_notebooks demo True []) = Inr ?rep" by code_simp
  then have hl: "list_notebooks demo True [] = (Inr ?rep, ?TL)"
    by (metis prod.collapse)
  have pe: "path_exists demo [] STATE_PATH" by (simp add: demo_def)
  have "\<forall>p. StorageState p \<notin> set (drop (length ([] :: trace)) ?TL)"
    by (rule run [THEN conjunct2, THEN conjunct2, THEN conjunct2, THEN mp,
          OF conjI [OF hl pe], THEN conjunct2])
  then have p2: "\<forall>p. StorageState p \<notin> set ?TL"
    unfolding list.size drop_0 .
  show ?thesis by (rule conjI [OF p1 p2])
qed

text \<open>
  The claim as stated has the session state written back on every exit of both
  operations. A run of \<open>list_notebooks\<close> on \<open>demo\<close> returns the two titles, and its
  trace, given here in full, ends with the close of the browser and the stop of the
  driver: the state is never written.
\<close>

theorem list_does_not_save_state_counterexample:
  "list_notebooks demo True [] =
     (Inr (Payload ([''My Notes'', ''Untitled''], 2)),
      [Start, Launch True, NewContext STATE_PATH, NewPage, Goto NOTEBOOKLM_URL,
       WaitForLoadState ''networkidle'', Sleep 3000, WaitForSelector notebook_card 10000,
       QuerySelectorAll notebook_card, CardQuerySelector 1 notebook_title, InnerText 11,
       CardQuerySelector 2 notebook_title, Close, Stop])
   \<and> StorageState STATE_PATH \<notin> set (snd (list_notebooks demo True []))"
  by code_simp

section \<open>Properties of the session check\<close>

lemma google_filter_shaped:
  "list_all cookie_shaped cs \<Longrightarrow> google_filter cs = Inr (filter has_marker cs)"
proof (induction cs)
  case Nil
  then show ?case by simp
next
  case (Cons c cs)
  then have rest: "google_filter cs = Inr (filter has_marker cs)" by simp
  from Cons.prems have "cookie_shaped c" by simp
  then obtain kvs where c: "c = JObj kvs"
    by (cases c) (simp_all add: cookie_shaped_def)
  show ?case
  proof (cases "map_of kvs ''domain''")
    case None
    then have "has_marker c = False" using c by (simp add: has_marker_def)
    then show ?thesis using c None rest by simp
  next
    case (Some v)
    then obtain d where v: "v = JStr d"
      using \<open>cookie_shaped c\<close> c by (cases v) (simp_all add: cookie_shaped_def)
    have "has_marker c = str_contains ''google'' d" using c Some v by (simp add: has_marker_def)
    then show ?thesis using c Some v rest by simp
  qed
qed

lemma google_cookies_shaped:
  assumes "state_shaped state"
  shows "google_cookies state = Inr (filter has_marker (cookies_of state))"
proof -
  from assms obtain kvs where s: "state = JObj kvs"
    by (cases state) (simp_all add: state_shaped_def)
  show ?thesis
  proof (cases "map_of kvs ''cookies''")
    case None
    then show ?thesis using s by (simp add: google_cookies_def cookies_of_def)
  next
    case (Some v)
    then obtain cs where v: "v = JArr cs" and sh: "list_all cookie_shaped cs"
      using assms s by (cases v) (simp_all add: state_shaped_def)
    then show ?thesis using s Some google_filter_shaped [OF sh]
      by (simp add: google_cookies_def cookies_of_def)
  qed
qed

lemma check_auth_status_structured:
  "(authenticated (check_auth_status f) \<longrightarrow>
      (\<exists>n. 0 < n \<and> cookie_count (check_auth_status f) = Some n))
   \<and> (\<not> authenticated (check_auth_status f) \<longrightarrow>
      message (check_auth_status f) \<noteq> [] \<and> cookie_count (check_auth_status f) = None)"
proof (cases f)
  case Absent
  then show ?thesis by simp
next
  case (Unreadable m)
  then show ?thesis by simp
next
  case (Loaded state)
  then show ?thesis by (cases "google_cookies state") auto
qed

text \<open>
  C1. \<open>check_auth_status\<close> is a total function of the state file: whatever the
  file is, it returns a dictionary and raises nothing. With the file absent, and
  with a file that cannot be opened or parsed, it answers not authenticated, with a
  message. A file that parses but cannot be read as a session state (reading it
  raises an exception, which is caught) gets the same answer, with the text of the
  exception in the message. For a session state, as the browser writes it, the answer
  is authenticated exactly when some cookie has a domain that contains the marker
  "google"; the count is then the number of those cookies, and otherwise the answer
  is not authenticated, with a message and no count. Every answer that is not
  authenticated has a message and no count.
\<close>

theorem check_reports_identity_cookies:
  "(\<not> authenticated (check_auth_status Absent)
      \<and> message (check_auth_status Absent) =
          ''No authentication state found. Run authentication first.''
      \<and> cookie_count (check_auth_status Absent) = None)
   \<and> (\<not> authenticated (check_auth_status (Unreadable m))
      \<and> message (check_auth_status (Unreadable m)) = ''Error reading state: '' @ m
      \<and> cookie_count (check_auth_status (Unreadable m)) = None)
   \<and> (google_cookies state = Inl e \<longrightarrow>
        \<not> authenticated (check_auth_status (Loaded state))
      \<and> message (check_auth_status (Loaded state)) = ''Error reading state: '' @ error_text e
      \<and> cookie_count (check_auth_status (Loaded state)) = None)
   \<and> (state_shaped state \<longrightarrow>
        (authenticated (check_auth_status (Loaded state)) \<longleftrightarrow>
           (\<exists>c\<in>set (cookies_of state). has_marker c))
      \<and> ((\<exists>c\<in>set (cookies_of state). has_marker c) \<longrightarrow>
           check_auth_status (Loaded state) =
             \<lparr>authenticated = True, message = ''Authentication state found.'',
              cookie_count = Some (length (filter has_marker (cookies_of state)))\<rparr>)
      \<and> (\<not> (\<exists>c\<in>set (cookies_of state). has_marker c) \<longrightarrow>
           check_auth_status (Loaded state) =
             \<lparr>authenticated = False,
              message = ''No Google cookies found in state. Re-authenticate.'',
              cookie_count = None\<rparr>))
   \<and> (authenticated (check_auth_status f) \<longrightarrow>
        (\<exists>n. 0 < n \<and> cookie_count (check_auth_status f) = Some n))
   \<and> (\<not> authenticated (check_auth_status f) \<longrightarrow>
        message (check_auth_status f) \<noteq> [] \<and> cookie_count (check_auth_status f) = None)"
proof -
  have a: "\<not> authenticated (check_auth_status Absent)
      \<and> message (check_auth_status Absent) =
          ''No authentication state found. Run authentication first.''
      \<and> cookie_count (check_auth_status Absent) = None"
    by simp
  have b: "\<not> authenticated (check_auth_status (Unreadable m))
      \<and> message (check_auth_status (Unreadable m)) = ''Error reading state: '' @ m
      \<and> cookie_count (check_auth_status (Unreadable m)) = None"
    by simp
  have c: "google_cookies state = Inl e \<longrightarrow>
        \<not> authenticated (check_auth_status (Loaded state))
      \<and> message (check_auth_status (Loaded state)) = ''Error reading state: '' @ error_text e
      \<and> cookie_count (check_auth_status (Loaded state)) = None"
    by simp
  have d: "(authenticated (check_auth_status (Loaded state)) \<longleftrightarrow>
           (\<exists>c\<in>set (cookies_of state). has_marker c))
      \<and> ((\<exists>c\<in>set (cookies_of state). has_marker c) \<longrightarrow>
           check_auth_status (Loaded state) =
             \<lparr>authenticated = True, message = ''Authentication state found.'',
              cookie_count = Some (length (filter has_marker (cookies_of state)))\<rparr>)
      \<and> (\<not> (\<exists>c\<in>set (cookies_of state). has_marker c) \<longrightarrow>
           check_auth_status (Loaded state) =
             \<lparr>authenticated = False,
              message = ''No Google cookies found in state. Re-authenticate.'',
              cookie_count = None\<rparr>)"
    if sh: "state_shaped state"
  proof -
    have g: "google_cookies state = Inr (filter has_marker (cookies_of state))"
      using google_cookies_shaped [OF sh] .
    have e: "filter has_marker (cookies_of state) \<noteq> [] \<longleftrightarrow>
             (\<exists>c\<in>set (cookies_of state). has_marker c)"
      by (simp add: filter_empty_conv)
    show ?thesis using g e by auto
  qed
  show ?thesis using a b c d check_auth_status_structured [of f] by blast
qed

theorem check_reports_identity_cookies_witness:
  "check_auth_status (Loaded (JObj [(''cookies'',
       JArr [JObj [(''name'', JStr ''SID''), (''domain'', JStr ''.google.com'')],
             JObj [(''name'', JStr ''theme''), (''domain'', JStr ''example.org'')],
             JObj [(''name'', JStr ''LSID''), (''domain'', JStr ''accounts.google.com'')]]),
       (''origins'', JArr [])])) =
     \<lparr>authenticated = True, message = ''Authentication state found.'', cookie_count = Some 2\<rparr>
   \<and> message (check_auth_status (Loaded (JObj [(''cookies'', JInt 5)]))) =
       ''Error reading state: '' @ [CHR 0x27] @ ''int'' @ [CHR 0x27] @ '' object is not iterable''
   \<and> cookie_count (check_auth_status (Loaded (JObj [(''cookies'', JInt 5)]))) = None"
proof -
  let ?S = "JObj [(''cookies'',
       JArr [JObj [(''name'', JStr ''SID''), (''domain'', JStr ''.google.com'')],
             JObj [(''name'', JStr ''theme''), (''domain'', JStr ''example.org'')],
             JObj [(''name'', JStr ''LSID''), (''domain'', JStr ''accounts.google.com'')]]),
       (''origins'', JArr [])]"
  let ?B = "JObj [(''cookies'', JInt 5)]"
  let ?E = "TypeError ([CHR 0x27] @ ''int'' @ [CHR 0x27] @ '' object is not iterable'')"
  have sh: "state_shaped ?S" by code_simp
  have mk: "\<exists>c\<in>set (cookies_of ?S). has_marker c" by code_simp
  have n: "length (filter has_marker (cookies_of ?S)) = 2" by code_simp
  have "check_auth_status (Loaded ?S) =
          \<lparr>authenticated = True, message = ''Authentication state found.'',
           cookie_count = Some (length (filter has_marker (cookies_of ?S)))\<rparr>"
    by (rule check_reports_identity_cookies [of _ ?S, THEN conjunct2, THEN conjunct2,
          THEN conjunct2, THEN conjunct1, THEN mp, OF sh, THEN conjunct2, THEN conjunct1,
          THEN mp, OF mk])
  then have p1: "check_auth_status (Loaded ?S) =
          \<lparr>authenticated = True, message = ''Authentication state found.'',
           cookie_count = Some 2\<rparr>"
    unfolding n .
  have he: "google_cookies ?B = Inl ?E" by code_simp
  have "message (check_auth_status (Loaded ?B)) = ''Error reading state: '' @ error_text ?E
        \<and> cookie_count (check_auth_status (Loaded ?B)) = None"
    by (rule check_reports_identity_cookies [of _ ?B ?E, THEN conjunct2, THEN conjunct2,
          THEN conjunct1, THEN mp, OF he, THEN conjunct2])
  then have p2: "message (check_auth_status (Loaded ?B)) =
        ''Error reading state: '' @ [CHR 0x27] @ ''int'' @ [CHR 0x27] @ '' object is not iterable''
        \<and> cookie_count (check_auth_status (Loaded ?B)) = None"
    unfolding error_text.simps .
  show ?thesis by (rule conjI [OF p1 p2])
qed
end
